theory Spec2Isabelle
  imports Main
begin

section \<open>Values, errors and external collaborators\<close>

text \<open>
  A decoded JSON document, as \<^verbatim>\<open>json.loads\<close> returns it: \<^verbatim>\<open>None\<close>, a bool, a number (kept as
  its lexeme), a \<^verbatim>\<open>str\<close>, a \<^verbatim>\<open>list\<close> or a \<^verbatim>\<open>dict\<close> with string keys. The same type stands for
  the cells of a database row and for what is handed to \<^verbatim>\<open>json.dumps\<close>.
\<close>

datatype json =
    JNull
  | JBool bool
  | JNumber string
  | JString string
  | JArray "json list"
  | JObject "(string \<times> json) list"

text \<open>Every exception of the source is a value; \<open>Inl\<close> of a result is a raise.\<close>

datatype error =
    JSONDecodeError
  | KeyError string
  | TypeError
  | IndexError
  | APIError string
  | OperationalError
  | DataError
  | SearchError string

text \<open>
  A message of the working transcript. The source mixes three shapes in one Python list:
  plain dicts \<^verbatim>\<open>{"role": r, "content": c}\<close> (the system prompt, the history, the caller's
  utterance), the response message object of the model (appended as it is), and the tool
  result dicts \<^verbatim>\<open>{"role": "tool", "tool_call_id": i, "content": c}\<close>.
\<close>

record tool_call =
  tc_id :: string
  tc_name :: string
  tc_arguments :: string

record response_msg =
  content :: "string option"
  tool_calls :: "tool_call list option"

datatype message =
    RoleContent string string
  | Response response_msg
  | ToolResult string string

record choice =
  choice_message :: response_msg
  finish_reason :: string

text \<open>
  The collaborators the repository calls but does not contain, as parameters:
  \<^item> \<open>chat_completions_create\<close>: the model invocation \<^verbatim>\<open>client.chat.completions.create\<close>, from
    the transcript to the \<^verbatim>\<open>choices\<close> of the completion, or an exception (a deterministic stub);
  \<^item> \<open>json_loads\<close>, \<open>json_dumps\<close>: Python's JSON decoder and encoder;
  \<^item> \<open>str_other\<close>: \<^verbatim>\<open>str()\<close> of a value that is not a \<^verbatim>\<open>str\<close>, as an f-string formats it;
  \<^item> \<open>sql_adapt_other\<close>: what the database driver does with a query argument that is not a
    \<^verbatim>\<open>str\<close> where the columns are text;
  \<^item> \<open>kb_query\<close>: the embedding model and the vector index behind \<^verbatim>\<open>search\<close>, from the
    query and \<open>n\<close> to the documents found.
\<close>

record env =
  chat_completions_create :: "message list \<Rightarrow> error + choice list"
  json_loads :: "string \<Rightarrow> error + json"
  json_dumps :: "json \<Rightarrow> string"
  str_other :: "json \<Rightarrow> string"
  sql_adapt_other :: "json \<Rightarrow> error + string"
  kb_query :: "json \<Rightarrow> nat \<Rightarrow> error + string list"

text \<open>\<^verbatim>\<open>args[key]\<close>: a missing key of a dict raises KeyError, any other value TypeError.\<close>

fun getitem :: "json \<Rightarrow> string \<Rightarrow> error + json" where
  "getitem (JObject kvs) k = (case map_of kvs k of None \<Rightarrow> Inl (KeyError k) | Some v \<Rightarrow> Inr v)"
| "getitem _ k = Inl TypeError"

fun py_str :: "env \<Rightarrow> json \<Rightarrow> string" where
  "py_str e (JString s) = s"
| "py_str e v = str_other e v"

fun sql_adapt :: "env \<Rightarrow> json \<Rightarrow> error + string" where
  "sql_adapt e (JString s) = Inr s"
| "sql_adapt e v = sql_adapt_other e v"

fun digit_char :: "nat \<Rightarrow> char" where
  "digit_char n = char_of (48 + n)"

fun str_nat :: "nat \<Rightarrow> string" where
  "str_nat n = (if n < 10 then [digit_char n] else str_nat (n div 10) @ [digit_char (n mod 10)])"

section \<open>database.py\<close>

text \<open>
  The tables. Their declarations are not part of the repository; the columns are those the
  queries name, all text, \<open>created_at\<close> a timestamp and the ticket \<open>id\<close> a number. A
  customer row keeps its other columns (\<^verbatim>\<open>SELECT *\<close>) as they come. \<open>timestamp_of k\<close> is the
  \<open>created_at\<close> the table's default gives the \<open>k\<close>-th conversation row, and \<open>ticket_stamp k\<close>
  that of the \<open>k\<close>-th ticket.
\<close>

record customer_row =
  cust_phone :: string
  cust_status :: string
  cust_columns :: "(string \<times> json) list"

record conversation_row =
  conv_phone :: string
  conv_role :: string
  conv_content :: string
  conv_created_at :: nat

record ticket_row =
  tkt_id :: nat
  ticket_phone :: string
  ticket_issue :: string
  ticket_priority :: string
  ticket_created_at :: nat

record tables =
  customers :: "customer_row list"
  conversations :: "conversation_row list"
  ticket_rows :: "ticket_row list"
  next_ticket_id :: nat
  timestamp_of :: "nat \<Rightarrow> nat"
  ticket_stamp :: "nat \<Rightarrow> nat"

text \<open>
  The database: the committed tables, and an oracle of failures. Every operation on a
  connection (opening it, executing a statement, committing) takes the next flag of
  \<open>faults\<close> and raises when it is \<open>True\<close>; with no flag left nothing fails.
\<close>

record db =
  committed :: tables
  faults :: "bool list"

definition next_fault :: "db \<Rightarrow> bool \<times> db" where
  "next_fault d = (case faults d of [] \<Rightarrow> (False, d) | f # fs \<Rightarrow> (f, d\<lparr>faults := fs\<rparr>))"

text \<open>
  An open connection: the tables as its transaction sees them, whether a transaction is
  open (the first statement opens one), and the database. \<^verbatim>\<open>commit()\<close> with no transaction
  open does nothing.
\<close>

record conn =
  conn_tables :: tables
  conn_in_txn :: bool
  conn_db :: db

definition cur_execute :: "(tables \<Rightarrow> (error + 'a) \<times> tables) \<Rightarrow> conn \<Rightarrow> (error + 'a) \<times> conn" where
  "cur_execute q c =
     (case next_fault (conn_db c) of
        (True, d') \<Rightarrow> (Inl OperationalError, c\<lparr>conn_in_txn := True, conn_db := d'\<rparr>)
      | (False, d') \<Rightarrow>
          (case q (conn_tables c) of
             (r, t') \<Rightarrow> (r, c\<lparr>conn_tables := t', conn_in_txn := True, conn_db := d'\<rparr>)))"

definition conn_commit :: "conn \<Rightarrow> (error + unit) \<times> conn" where
  "conn_commit c =
     (if \<not> conn_in_txn c then (Inr (), c)
      else
        (case next_fault (conn_db c) of
           (True, d') \<Rightarrow> (Inl OperationalError, c\<lparr>conn_db := d'\<rparr>)
         | (False, d') \<Rightarrow>
             (Inr (), c\<lparr>conn_in_txn := False, conn_db := d'\<lparr>committed := conn_tables c\<rparr>\<rparr>)))"

text \<open>
  \<^verbatim>\<open>with get_conn() as conn:\<close> opens a connection (which may raise), runs the body in one
  transaction, commits when the body returns and rolls back when it raises: what the
  transaction wrote and did not commit is dropped.
\<close>

definition with_conn :: "(conn \<Rightarrow> (error + 'a) \<times> conn) \<Rightarrow> db \<Rightarrow> (error + 'a) \<times> db" where
  "with_conn body d =
     (case next_fault d of
        (True, d') \<Rightarrow> (Inl OperationalError, d')
      | (False, d') \<Rightarrow>
          (case body \<lparr>conn_tables = committed d', conn_in_txn = False, conn_db = d'\<rparr> of
             (Inl err, c) \<Rightarrow> (Inl err, conn_db c)
           | (Inr x, c) \<Rightarrow>
               (case conn_commit c of
                  (Inl err, c') \<Rightarrow> (Inl err, conn_db c')
                | (Inr u, c') \<Rightarrow> (Inr x, conn_db c'))))"

definition dict_of_customer :: "customer_row \<Rightarrow> (string \<times> json) list" where
  "dict_of_customer r =
     (''phone'', JString (cust_phone r)) # (''status'', JString (cust_status r)) # cust_columns r"

definition dict_of_ticket :: "ticket_row \<Rightarrow> (string \<times> json) list" where
  "dict_of_ticket r =
     [(''id'', JNumber (str_nat (tkt_id r))), (''phone'', JString (ticket_phone r)),
      (''issue'', JString (ticket_issue r)), (''priority'', JString (ticket_priority r)),
      (''created_at'', JNumber (str_nat (ticket_created_at r)))]"

text \<open>\<^verbatim>\<open>SELECT * FROM customers WHERE phone = %s\<close>, then \<^verbatim>\<open>fetchone()\<close>.\<close>

definition select_customer :: "env \<Rightarrow> json \<Rightarrow> tables \<Rightarrow> (error + customer_row option) \<times> tables" where
  "select_customer e phone t =
     (case sql_adapt e phone of
        Inl err \<Rightarrow> (Inl err, t)
      | Inr p \<Rightarrow> (Inr (find (\<lambda>r. cust_phone r = p) (customers t)), t))"

definition row_dict :: "customer_row option \<Rightarrow> (string \<times> json) list option" where
  "row_dict row = (case row of None \<Rightarrow> None | Some r \<Rightarrow> Some (dict_of_customer r))"

definition get_customer :: "env \<Rightarrow> json \<Rightarrow> db \<Rightarrow> (error + (string \<times> json) list option) \<times> db" where
  "get_customer e phone =
     with_conn (\<lambda>c.
       case cur_execute (select_customer e phone) c of
         (Inl err, c') \<Rightarrow> (Inl err, c')
       | (Inr row, c') \<Rightarrow> (Inr (row_dict row), c'))"

text \<open>\<^verbatim>\<open>UPDATE customers SET status = %s WHERE phone = %s RETURNING *\<close>, then \<^verbatim>\<open>fetchone()\<close>.\<close>

definition update_status :: "env \<Rightarrow> json \<Rightarrow> json \<Rightarrow> tables \<Rightarrow> (error + customer_row option) \<times> tables" where
  "update_status e status phone t =
     (case sql_adapt e status of
        Inl err \<Rightarrow> (Inl err, t)
      | Inr s \<Rightarrow>
          (case sql_adapt e phone of
             Inl err \<Rightarrow> (Inl err, t)
           | Inr p \<Rightarrow>
               (let rows = map (\<lambda>r. if cust_phone r = p then r\<lparr>cust_status := s\<rparr> else r) (customers t)
                in (Inr (find (\<lambda>r. cust_phone r = p) rows), t\<lparr>customers := rows\<rparr>))))"

definition update_customer_status :: "env \<Rightarrow> json \<Rightarrow> json \<Rightarrow> db \<Rightarrow> (error + (string \<times> json) list option) \<times> db" where
  "update_customer_status e phone status =
     with_conn (\<lambda>c.
       case cur_execute (update_status e status phone) c of
         (Inl err, c') \<Rightarrow> (Inl err, c')
       | (Inr row, c') \<Rightarrow>
           (case conn_commit c' of
              (Inl err, c'') \<Rightarrow> (Inl err, c'')
            | (Inr u, c'') \<Rightarrow> (Inr (row_dict row), c'')))"

text \<open>
  \<^verbatim>\<open>SELECT role, content FROM conversations WHERE phone = %s ORDER BY created_at DESC LIMIT %s\<close>.
  A negative \<^verbatim>\<open>LIMIT\<close> is an error of the database. Rows of equal \<open>created_at\<close> come in an
  order the database chooses; here the later row first.
\<close>

definition select_history :: "string \<Rightarrow> int \<Rightarrow> tables \<Rightarrow> (error + conversation_row list) \<times> tables" where
  "select_history phone limit t =
     (if limit < 0 then (Inl DataError, t)
      else (Inr (take (nat limit)
                  (rev (sort_key conv_created_at
                     (filter (\<lambda>r. conv_phone r = phone) (conversations t))))), t))"

definition turn_of :: "conversation_row \<Rightarrow> message" where
  "turn_of r = RoleContent (conv_role r) (conv_content r)"

definition get_history :: "string \<Rightarrow> int \<Rightarrow> db \<Rightarrow> (error + message list) \<times> db" where
  "get_history phone limit =
     with_conn (\<lambda>c.
       case cur_execute (select_history phone limit) c of
         (Inl err, c') \<Rightarrow> (Inl err, c')
       | (Inr rows, c') \<Rightarrow> (Inr (map turn_of (rev rows)), c'))"

text \<open>\<^verbatim>\<open>INSERT INTO conversations (phone, role, content) VALUES (%s, %s, %s)\<close>.\<close>

definition insert_conversation :: "string \<Rightarrow> string \<Rightarrow> string \<Rightarrow> tables \<Rightarrow> (error + unit) \<times> tables" where
  "insert_conversation phone role text t =
     (Inr (),
      t\<lparr>conversations := conversations t @
           [\<lparr>conv_phone = phone, conv_role = role, conv_content = text,
             conv_created_at = timestamp_of t (length (conversations t))\<rparr>]\<rparr>)"

definition save_turn :: "string \<Rightarrow> string \<Rightarrow> string \<Rightarrow> db \<Rightarrow> (error + unit) \<times> db" where
  "save_turn phone user_msg assistant_msg =
     with_conn (\<lambda>c.
       case cur_execute (insert_conversation phone ''user'' user_msg) c of
         (Inl err, c') \<Rightarrow> (Inl err, c')
       | (Inr u, c') \<Rightarrow>
           (case cur_execute (insert_conversation phone ''assistant'' assistant_msg) c' of
              (Inl err, c'') \<Rightarrow> (Inl err, c'')
            | (Inr u', c'') \<Rightarrow> conn_commit c''))"

text \<open>\<^verbatim>\<open>INSERT INTO tickets (phone, issue, priority) VALUES (%s, %s, %s) RETURNING id\<close>.\<close>

definition insert_ticket :: "env \<Rightarrow> json \<Rightarrow> json \<Rightarrow> json \<Rightarrow> tables \<Rightarrow> (error + nat) \<times> tables" where
  "insert_ticket e phone issue priority t =
     (case sql_adapt e phone of
        Inl err \<Rightarrow> (Inl err, t)
      | Inr p \<Rightarrow>
          (case sql_adapt e issue of
             Inl err \<Rightarrow> (Inl err, t)
           | Inr i \<Rightarrow>
               (case sql_adapt e priority of
                  Inl err \<Rightarrow> (Inl err, t)
                | Inr pr \<Rightarrow>
                    (Inr (next_ticket_id t),
                     t\<lparr>ticket_rows := ticket_rows t @
                          [\<lparr>tkt_id = next_ticket_id t, ticket_phone = p, ticket_issue = i,
                            ticket_priority = pr,
                            ticket_created_at = ticket_stamp t (length (ticket_rows t))\<rparr>],
                       next_ticket_id := Suc (next_ticket_id t)\<rparr>))))"

definition create_ticket :: "env \<Rightarrow> json \<Rightarrow> json \<Rightarrow> json \<Rightarrow> db \<Rightarrow> (error + nat) \<times> db" where
  "create_ticket e phone issue priority =
     with_conn (\<lambda>c.
       case cur_execute (insert_ticket e phone issue priority) c of
         (Inl err, c') \<Rightarrow> (Inl err, c')
       | (Inr i, c') \<Rightarrow>
           (case conn_commit c' of
              (Inl err, c'') \<Rightarrow> (Inl err, c'')
            | (Inr u, c'') \<Rightarrow> (Inr i, c'')))"

text \<open>\<^verbatim>\<open>SELECT * FROM tickets WHERE phone = %s ORDER BY created_at DESC\<close>.\<close>

definition select_tickets :: "env \<Rightarrow> json \<Rightarrow> tables \<Rightarrow> (error + ticket_row list) \<times> tables" where
  "select_tickets e phone t =
     (case sql_adapt e phone of
        Inl err \<Rightarrow> (Inl err, t)
      | Inr p \<Rightarrow>
          (Inr (rev (sort_key ticket_created_at (filter (\<lambda>r. ticket_phone r = p) (ticket_rows t)))), t))"

definition get_tickets :: "env \<Rightarrow> json \<Rightarrow> db \<Rightarrow> (error + (string \<times> json) list list) \<times> db" where
  "get_tickets e phone =
     with_conn (\<lambda>c.
       case cur_execute (select_tickets e phone) c of
         (Inl err, c') \<Rightarrow> (Inl err, c')
       | (Inr rows, c') \<Rightarrow> (Inr (map dict_of_ticket rows), c'))"

section \<open>knowledge_base.py\<close>

fun str_join :: "string \<Rightarrow> string list \<Rightarrow> string" where
  "str_join sep [] = []"
| "str_join sep [x] = x"
| "str_join sep (x # y # ys) = x @ sep @ str_join sep (y # ys)"

text \<open>
  \<^verbatim>\<open>search(query, n=3)\<close>: the documents the index returns for the query, joined, or a fixed
  sentence when there is none.
\<close>

definition search :: "env \<Rightarrow> json \<Rightarrow> error + string" where
  "search e query =
     (case kb_query e query 3 of
        Inl err \<Rightarrow> Inl err
      | Inr docs \<Rightarrow>
          if docs = [] then Inr ''No relevant information found in knowledge base.''
          else Inr (str_join ''\<newline>---\<newline>'' docs))"

section \<open>tools.py\<close>

text \<open>
  \<^verbatim>\<open>TOOLS\<close>, the catalogue sent to the model: of each entry the name and the \<^verbatim>\<open>required\<close>
  keys of its parameters (the descriptions are left out).
\<close>

definition TOOLS :: "(string \<times> string list) list" where
  "TOOLS =
     [(''get_customer_info'', [''phone'']),
      (''search_knowledge_base'', [''query'']),
      (''create_support_ticket'', [''phone'', ''issue'', ''priority'']),
      (''get_customer_tickets'', [''phone'']),
      (''update_account_status'', [''phone'', ''status''])]"

definition required_keys :: "string \<Rightarrow> string list" where
  "required_keys name = (case map_of TOOLS name of None \<Rightarrow> [] | Some ks \<Rightarrow> ks)"

text \<open>
  \<^verbatim>\<open>execute_tool(name, arguments)\<close>: the arguments are decoded first, whatever the name; then
  the branch of the name runs, reading the keys it needs from the decoded value, in the
  order the source reads them. There is no \<^verbatim>\<open>try\<close> in the function: an exception of the
  decoder, of a subscript or of a collaborator is the function's own.
\<close>

definition execute_tool :: "env \<Rightarrow> string \<Rightarrow> string \<Rightarrow> db \<Rightarrow> (error + string) \<times> db" where
  "execute_tool e name arguments d =
     (case json_loads e arguments of
        Inl err \<Rightarrow> (Inl err, d)
      | Inr args \<Rightarrow>
          if name = ''get_customer_info'' then
            (case getitem args ''phone'' of
               Inl err \<Rightarrow> (Inl err, d)
             | Inr phone \<Rightarrow>
                 (case get_customer e phone d of
                    (Inl err, d') \<Rightarrow> (Inl err, d')
                  | (Inr None, d') \<Rightarrow> (Inr ''Customer not found in database.'', d')
                  | (Inr (Some result), d') \<Rightarrow>
                      if result \<noteq> [] then (Inr (json_dumps e (JObject result)), d')
                      else (Inr ''Customer not found in database.'', d')))
          else if name = ''search_knowledge_base'' then
            (case getitem args ''query'' of
               Inl err \<Rightarrow> (Inl err, d)
             | Inr query \<Rightarrow> (search e query, d))
          else if name = ''create_support_ticket'' then
            (case getitem args ''phone'' of
               Inl err \<Rightarrow> (Inl err, d)
             | Inr phone \<Rightarrow>
                 (case getitem args ''issue'' of
                    Inl err \<Rightarrow> (Inl err, d)
                  | Inr issue \<Rightarrow>
                      (case getitem args ''priority'' of
                         Inl err \<Rightarrow> (Inl err, d)
                       | Inr priority \<Rightarrow>
                           (case create_ticket e phone issue priority d of
                              (Inl err, d') \<Rightarrow> (Inl err, d')
                            | (Inr ticket_id, d') \<Rightarrow>
                                (Inr (''Support ticket created successfully. Ticket ID: ''
                                      @ str_nat ticket_id
                                      @ ''. The customer will be contacted within 24 hours.''), d')))))
          else if name = ''get_customer_tickets'' then
            (case getitem args ''phone'' of
               Inl err \<Rightarrow> (Inl err, d)
             | Inr phone \<Rightarrow>
                 (case get_tickets e phone d of
                    (Inl err, d') \<Rightarrow> (Inl err, d')
                  | (Inr tickets, d') \<Rightarrow>
                      if tickets \<noteq> [] then (Inr (json_dumps e (JArray (map JObject tickets))), d')
                      else (Inr ''No previous support tickets found for this customer.'', d')))
          else if name = ''update_account_status'' then
            (case getitem args ''phone'' of
               Inl err \<Rightarrow> (Inl err, d)
             | Inr phone \<Rightarrow>
                 (case getitem args ''status'' of
                    Inl err \<Rightarrow> (Inl err, d)
                  | Inr status \<Rightarrow>
                      (case update_customer_status e phone status d of
                         (Inl err, d') \<Rightarrow> (Inl err, d')
                       | (Inr None, d') \<Rightarrow>
                           (Inr ''Customer not found. Could not update account status.'', d')
                       | (Inr (Some result), d') \<Rightarrow>
                           if result \<noteq> [] then
                             (Inr (''Account status successfully updated to ''
                                   @ [CHR 0x27] @ py_str e status @ [CHR 0x27] @ '' for ''
                                   @ py_str e (case map_of result ''name'' of
                                                 None \<Rightarrow> JString ''customer''
                                               | Some v \<Rightarrow> v)
                                   @ ''.''), d')
                           else (Inr ''Customer not found. Could not update account status.'', d'))))
          else (Inr (''Unknown tool '' @ [CHR 0x27] @ name @ [CHR 0x27] @ ''. No action taken.''), d))"

section \<open>groq_agent.py\<close>

text \<open>
  Python lists are objects: the history handed to \<^verbatim>\<open>get_response\<close> and the working
  transcript it builds are two lists of one store, \<open>lists\<close>, each at its address;
  \<open>next_addr\<close> is the first address not yet given out. \<open>calls\<close> records every call to a
  collaborator, in order; nothing reads it. The \<^verbatim>\<open>print\<close> lines of the source are left out.
\<close>

datatype call =
    CallModel "message list"
  | CallTool string string
  | CallGetHistory string
  | CallGetResponse string
  | CallSaveTurn string string string

record world =
  database :: db
  lists :: "nat \<Rightarrow> message list"
  next_addr :: nat
  calls :: "call list"

definition new_list :: "message list \<Rightarrow> world \<Rightarrow> nat \<times> world" where
  "new_list xs w =
     (next_addr w, w\<lparr>lists := (lists w)(next_addr w := xs), next_addr := Suc (next_addr w)\<rparr>)"

definition list_append :: "nat \<Rightarrow> message \<Rightarrow> world \<Rightarrow> world" where
  "list_append a x w = w\<lparr>lists := (lists w)(a := lists w a @ [x])\<rparr>"

definition record_call :: "call \<Rightarrow> world \<Rightarrow> world" where
  "record_call c w = w\<lparr>calls := calls w @ [c]\<rparr>"

definition SYSTEM_PROMPT :: string where
  "SYSTEM_PROMPT =
     ''\<newline>You are a professional and empathetic call center agent. \<newline>''
     @ ''\<newline>IMPORTANT RULES:\<newline>''
     @ ''- Your responses will be spoken aloud via text-to-speech, so:\<newline>''
     @ ''  * NO bullet points, NO markdown, NO special characters\<newline>''
     @ ''  * Use natural, conversational sentences only\<newline>''
     @ ''  * Keep responses concise but complete (2-4 sentences is ideal)\<newline>''
     @ ''- ALWAYS use tools to look up customer info and search the knowledge base BEFORE answering\<newline>''
     @ ''- Be empathetic '' @ [CHR 0xE2, CHR 0x80, CHR 0x94] @ '' the caller may be frustrated\<newline>''
     @ ''- If you create a ticket, tell the customer their ticket ID\<newline>''
     @ ''- If you cannot resolve an issue, offer to escalate to a human agent\<newline>''
     @ ''- Address the customer by their first name once you know it\<newline>''"

definition fallback_apology :: string where
  "fallback_apology = ''I'm sorry, I was unable to process that request. Please try again.''"

text \<open>
  The tool executor the loop calls: \<^verbatim>\<open>execute_tool\<close> of tools.py in the program, a stub in a
  test. It is an argument of the loop so that both can be put in.
\<close>

type_synonym executor = "string \<Rightarrow> string \<Rightarrow> db \<Rightarrow> (error + string) \<times> db"

text \<open>
  \<^verbatim>\<open>for tool_call in response_msg.tool_calls:\<close> runs each requested tool in turn and appends
  its result to the transcript at \<open>m\<close>, tagged with the id of the call. A tool that raises
  ends the loop there.
\<close>

fun run_tool_calls :: "executor \<Rightarrow> nat \<Rightarrow> tool_call list \<Rightarrow> world \<Rightarrow> (error + unit) \<times> world" where
  "run_tool_calls ex m [] w = (Inr (), w)"
| "run_tool_calls ex m (tool_call # rest) w =
     (let w1 = record_call (CallTool (tc_name tool_call) (tc_arguments tool_call)) w in
      case ex (tc_name tool_call) (tc_arguments tool_call) (database w1) of
        (Inl err, d') \<Rightarrow> (Inl err, w1\<lparr>database := d'\<rparr>)
      | (Inr tool_result, d') \<Rightarrow>
          run_tool_calls ex m rest
            (list_append m (ToolResult (tc_id tool_call) tool_result) (w1\<lparr>database := d'\<rparr>)))"

text \<open>
  \<^verbatim>\<open>while True:\<close> of \<^verbatim>\<open>get_response\<close>, on the transcript at address \<open>m\<close>. The source has no
  bound on the rounds and no \<^verbatim>\<open>try\<close>: the result is \<open>None\<close> when the loop never ends,
  \<open>Some (Inl err, _)\<close> when an exception leaves the function and \<open>Some (Inr reply, _)\<close> when it
  returns.
\<close>

partial_function (option) agent_loop :: "env \<Rightarrow> executor \<Rightarrow> nat \<Rightarrow> world \<Rightarrow> ((error + string) \<times> world) option" where
  "agent_loop e ex m w =
     (let w1 = record_call (CallModel (lists w m)) w in
      case chat_completions_create e (lists w m) of
        Inl err \<Rightarrow> Some (Inl err, w1)
      | Inr choices \<Rightarrow>
          (case choices of
             [] \<Rightarrow> Some (Inl IndexError, w1)
           | c # cs \<Rightarrow>
               if finish_reason c \<noteq> ''tool_calls'' then
                 (case content (choice_message c) of
                    None \<Rightarrow> Some (Inr fallback_apology, w1)
                  | Some final_answer \<Rightarrow>
                      if final_answer = [] then Some (Inr fallback_apology, w1)
                      else Some (Inr final_answer, w1))
               else
                 (let w2 = list_append m (Response (choice_message c)) w1 in
                  case tool_calls (choice_message c) of
                    None \<Rightarrow> Some (Inl TypeError, w2)
                  | Some requested \<Rightarrow>
                      (case run_tool_calls ex m requested w2 of
                         (Inl err, w3) \<Rightarrow> Some (Inl err, w3)
                       | (Inr u, w3) \<Rightarrow> agent_loop e ex m w3))))"

text \<open>
  \<^verbatim>\<open>get_response(user_message, history, caller_phone)\<close>: a new list holds the system prompt,
  the elements of \<open>history\<close> and the utterance; the loop runs on it.
\<close>

definition get_response_with :: "env \<Rightarrow> executor \<Rightarrow> string \<Rightarrow> nat \<Rightarrow> string \<Rightarrow> world \<Rightarrow> ((error + string) \<times> world) option" where
  "get_response_with e ex user_message history caller_phone w =
     (case new_list ([RoleContent ''system'' SYSTEM_PROMPT] @ lists w history
                     @ [RoleContent ''user'' user_message]) w of
        (messages, w') \<Rightarrow> agent_loop e ex messages w')"

definition get_response :: "env \<Rightarrow> string \<Rightarrow> nat \<Rightarrow> string \<Rightarrow> world \<Rightarrow> ((error + string) \<times> world) option" where
  "get_response e = get_response_with e (execute_tool e)"

section \<open>app.py\<close>

text \<open>
  The reply of the controller is the \<^verbatim>\<open>VoiceResponse\<close> it builds: a list of verbs. A Python
  \<^verbatim>\<open>str\<close> is here the list of the bytes of its UTF-8 encoding.
\<close>

record say =
  say_text :: string
  say_voice :: "string option"
  say_language :: "string option"

record gather =
  gather_input :: string
  gather_action :: string
  gather_method :: string
  gather_timeout :: nat
  gather_speech_timeout :: string
  gather_language :: string
  gather_enhanced :: bool
  gather_say :: say

datatype verb = Gather gather | Say say | Hangup

record request =
  form :: "string \<Rightarrow> string option"

definition form_get :: "request \<Rightarrow> string \<Rightarrow> string \<Rightarrow> string" where
  "form_get r k dflt = (case form r k of None \<Rightarrow> dflt | Some v \<Rightarrow> v)"

text \<open>
  The characters \<^verbatim>\<open>str.isspace\<close> holds of, each as its UTF-8 bytes: U+0009 to U+000D, U+001C
  to U+001F, U+0020, U+0085, U+00A0, U+1680, U+2000 to U+200A, U+2028, U+2029, U+202F,
  U+205F and U+3000.
\<close>

definition whitespace :: "string list" where
  "whitespace =
     [[CHR 0x09], [CHR 0x0A], [CHR 0x0B], [CHR 0x0C], [CHR 0x0D],
      [CHR 0x1C], [CHR 0x1D], [CHR 0x1E], [CHR 0x1F], [CHR 0x20],
      [CHR 0xC2, CHR 0x85], [CHR 0xC2, CHR 0xA0],
      [CHR 0xE1, CHR 0x9A, CHR 0x80],
      [CHR 0xE2, CHR 0x80, CHR 0x80], [CHR 0xE2, CHR 0x80, CHR 0x81],
      [CHR 0xE2, CHR 0x80, CHR 0x82], [CHR 0xE2, CHR 0x80, CHR 0x83],
      [CHR 0xE2, CHR 0x80, CHR 0x84], [CHR 0xE2, CHR 0x80, CHR 0x85],
      [CHR 0xE2, CHR 0x80, CHR 0x86], [CHR 0xE2, CHR 0x80, CHR 0x87],
      [CHR 0xE2, CHR 0x80, CHR 0x88], [CHR 0xE2, CHR 0x80, CHR 0x89],
      [CHR 0xE2, CHR 0x80, CHR 0x8A],
      [CHR 0xE2, CHR 0x80, CHR 0xA8], [CHR 0xE2, CHR 0x80, CHR 0xA9],
      [CHR 0xE2, CHR 0x80, CHR 0xAF], [CHR 0xE2, CHR 0x81, CHR 0x9F],
      [CHR 0xE3, CHR 0x80, CHR 0x80]]"

text \<open>Removes from the front of \<open>s\<close> every character of \<open>ws\<close>, until none is in front.\<close>

function drop_leading :: "string list \<Rightarrow> string \<Rightarrow> string" where
  "drop_leading ws s =
     (case find (\<lambda>w. w \<noteq> [] \<and> take (length w) s = w) ws of
        None \<Rightarrow> s
      | Some w \<Rightarrow> drop_leading ws (drop (length w) s))"
  by pat_completeness auto
termination
proof (relation "measure (\<lambda>(ws, s). length s)")
  show "wf (measure (\<lambda>(ws, s). length s))" by simp
next
  fix ws :: "string list" and s w :: string
  assume "find (\<lambda>w. w \<noteq> [] \<and> take (length w) s = w) ws = Some w"
  then have w: "w \<noteq> []" "take (length w) s = w"
    by (auto simp: find_Some_iff)
  then have "length w \<le> length s"
    by (metis length_take min.cobounded1)
  with w(1) show "((ws, drop (length w) s), (ws, s)) \<in> measure (\<lambda>(ws, s). length s)"
    by (cases w) auto
qed

declare drop_leading.simps [simp del]

text \<open>\<^verbatim>\<open>str.strip()\<close>: the whitespace in front and at the end is removed.\<close>

definition strip :: "string \<Rightarrow> string" where
  "strip s = rev (drop_leading (map rev whitespace) (rev (drop_leading whitespace s)))"

definition AGENT_VOICE :: string where
  "AGENT_VOICE = ''Polly.Joanna''"

definition AGENT_LANGUAGE :: string where
  "AGENT_LANGUAGE = ''en-US''"

definition SPEECH_TIMEOUT :: string where
  "SPEECH_TIMEOUT = ''auto''"

definition INPUT_TIMEOUT :: nat where
  "INPUT_TIMEOUT = 8"

definition listen :: "say \<Rightarrow> verb" where
  "listen s =
     Gather \<lparr>gather_input = ''speech'', gather_action = ''/handle-speech'', gather_method = ''POST'',
             gather_timeout = INPUT_TIMEOUT, gather_speech_timeout = SPEECH_TIMEOUT,
             gather_language = AGENT_LANGUAGE, gather_enhanced = True, gather_say = s\<rparr>"

definition repeat_prompt :: "verb list" where
  "repeat_prompt =
     [listen \<lparr>say_text = ''I didn't catch that. Could you please repeat?'',
              say_voice = Some AGENT_VOICE, say_language = None\<rparr>]"

definition technical_apology :: string where
  "technical_apology = ''I'm sorry, I'm having a technical issue. Please hold for a moment.''"

definition reply_directive :: "string \<Rightarrow> verb list" where
  "reply_directive reply =
     [listen \<lparr>say_text = reply, say_voice = Some AGENT_VOICE, say_language = Some AGENT_LANGUAGE\<rparr>,
      listen \<lparr>say_text = ''Is there anything else I can help you with?'',
              say_voice = Some AGENT_VOICE, say_language = None\<rparr>,
      Say \<lparr>say_text = ''Thank you for calling. Have a great day. Goodbye!'',
           say_voice = Some AGENT_VOICE, say_language = None\<rparr>,
      Hangup]"

text \<open>
  The second half of \<^verbatim>\<open>handle_speech\<close>, from the outcome of \<^verbatim>\<open>get_response\<close>: an exception
  is caught and replaced by the technical apology; the exchange is saved, an exception of
  \<^verbatim>\<open>save_turn\<close> being caught and dropped; the reply is spoken.
\<close>

definition finish_turn :: "string \<Rightarrow> string \<Rightarrow> (error + string) \<times> world \<Rightarrow> ((error + verb list) \<times> world) option" where
  "finish_turn caller_phone user_speech outcome =
     (case outcome of (res, w) \<Rightarrow>
        (let reply = (case res of Inl err \<Rightarrow> technical_apology | Inr text \<Rightarrow> text);
             w1 = record_call (CallSaveTurn caller_phone user_speech reply) w
         in case save_turn caller_phone user_speech reply (database w1) of
              (saved, d') \<Rightarrow> Some (Inr (reply_directive reply), w1\<lparr>database := d'\<rparr>)))"

text \<open>
  \<^verbatim>\<open>handle_speech()\<close>. \<^verbatim>\<open>get_history\<close> is called outside any \<^verbatim>\<open>try\<close>, with its default limit
  of 10; the list it returns is a new list of the store.
\<close>

definition handle_speech :: "env \<Rightarrow> request \<Rightarrow> world \<Rightarrow> ((error + verb list) \<times> world) option" where
  "handle_speech e r w =
     (let user_speech = strip (form_get r ''SpeechResult'' []);
          caller_phone = form_get r ''From'' ''unknown''
      in if user_speech = [] then Some (Inr repeat_prompt, w)
         else
           (let w1 = record_call (CallGetHistory caller_phone) w in
            case get_history caller_phone 10 (database w1) of
              (Inl err, d') \<Rightarrow> Some (Inl err, w1\<lparr>database := d'\<rparr>)
            | (Inr rows, d') \<Rightarrow>
                (case new_list rows (w1\<lparr>database := d'\<rparr>) of
                   (history, w2) \<Rightarrow>
                     Option.bind
                       (get_response e user_speech history caller_phone
                          (record_call (CallGetResponse user_speech) w2))
                       (finish_turn caller_phone user_speech))))"

section \<open>Test doubles\<close>


text \<open>The store in which the loop of \<^verbatim>\<open>get_response\<close> starts: the new transcript is at \<open>next_addr w\<close>.\<close>

definition transcript_world :: "string \<Rightarrow> nat \<Rightarrow> world \<Rightarrow> world" where
  "transcript_world user_message history w =
     snd (new_list ([RoleContent ''system'' SYSTEM_PROMPT] @ lists w history
                    @ [RoleContent ''user'' user_message]) w)"

text \<open>A tool stub without state: its result depends on the name and the arguments only.\<close>

definition stub_tools :: "(string \<Rightarrow> string \<Rightarrow> error + string) \<Rightarrow> executor" where
  "stub_tools ts name arguments d = (ts name arguments, d)"

text \<open>
  A decoder stub that knows three documents, the empty object, the empty array and one
  query, and rejects everything else; an environment around a model stub; four model stubs: one that always
  requests a search, one that always raises, one that answers with no text, and one that
  requests a search and answers once the transcript ends with a tool result.
\<close>

definition stub_json_loads :: "string \<Rightarrow> error + json" where
  \<open>stub_json_loads s =
     (if s = ''{}'' then Inr (JObject [])
      else if s = ''[]'' then Inr (JArray [])
      else if s = ''{"query": "password reset"}''
        then Inr (JObject [(''query'', JString ''password reset'')])
      else Inl JSONDecodeError)\<close>

definition stub_env :: "(message list \<Rightarrow> error + choice list) \<Rightarrow> env" where
  "stub_env model =
     \<lparr>chat_completions_create = model,
      json_loads = stub_json_loads,
      json_dumps = (\<lambda>v. ''{}''),
      str_other = (\<lambda>v. ''None''),
      sql_adapt_other = (\<lambda>v. Inl DataError),
      kb_query = (\<lambda>q n. Inr [''To reset your password, go to the login page.''])\<rparr>"

definition search_request :: choice where
  \<open>search_request =
     \<lparr>choice_message =
        \<lparr>content = None,
         tool_calls = Some [\<lparr>tc_id = ''call_1'', tc_name = ''search_knowledge_base'',
                             tc_arguments = ''{"query": "password reset"}''\<rparr>]\<rparr>,
      finish_reason = ''tool_calls''\<rparr>\<close>

definition always_tool_model :: "message list \<Rightarrow> error + choice list" where
  "always_tool_model msgs = Inr [search_request]"

definition failing_model :: "message list \<Rightarrow> error + choice list" where
  "failing_model msgs = Inl (APIError ''timeout'')"

definition silent_model :: "message list \<Rightarrow> error + choice list" where
  "silent_model msgs =
     Inr [\<lparr>choice_message = \<lparr>content = Some [], tool_calls = None\<rparr>, finish_reason = ''stop''\<rparr>]"

fun is_tool_result :: "message \<Rightarrow> bool" where
  "is_tool_result (ToolResult i text) = True"
| "is_tool_result msg = False"

definition scripted_model :: "message list \<Rightarrow> error + choice list" where
  "scripted_model msgs =
     (if msgs \<noteq> [] \<and> is_tool_result (last msgs)
      then Inr [\<lparr>choice_message = \<lparr>content = Some ''Use the Forgot Password link.'',
                                    tool_calls = None\<rparr>,
                 finish_reason = ''stop''\<rparr>]
      else Inr [search_request])"

definition empty_tables :: tables where
  "empty_tables =
     \<lparr>customers = [], conversations = [], ticket_rows = [], next_ticket_id = 1,
      timestamp_of = (\<lambda>k. k), ticket_stamp = (\<lambda>k. k)\<rparr>"

definition db0 :: db where
  "db0 = \<lparr>committed = empty_tables, faults = []\<rparr>"

text \<open>A store whose one list, at address 0, is an empty history.\<close>

definition world0 :: world where
  "world0 = \<lparr>database = db0, lists = (\<lambda>a. []), next_addr = 1, calls = []\<rparr>"

text \<open>A store whose list at address 0 is a history of one exchange, and a request.\<close>

definition world1 :: world where
  "world1 =
     world0\<lparr>lists := (\<lambda>a. [])(0 := [RoleContent ''user'' ''hi'', RoleContent ''assistant'' ''Hello!''])\<rparr>"

definition speech_request :: request where
  "speech_request =
     \<lparr>form = [''SpeechResult'' \<mapsto> '' I forgot my password '', ''From'' \<mapsto> ''+15550100'']\<rparr>"

text \<open>
  A model that requests tools on every transcript, with tools that return whenever they
  are called: the pathological cycle of the specification.
\<close>

definition always_requests_tools :: "env \<Rightarrow> executor \<Rightarrow> bool" where
  "always_requests_tools e ex =
     (\<forall>msgs. \<exists>c cs requested.
        chat_completions_create e msgs = Inr (c # cs) \<and> finish_reason c = ''tool_calls''
        \<and> tool_calls (choice_message c) = Some requested
        \<and> (\<forall>tc \<in> set requested. \<forall>d. \<exists>out d'. ex (tc_name tc) (tc_arguments tc) d = (Inr out, d')))"


definition turn_row :: "string \<Rightarrow> string \<Rightarrow> string \<Rightarrow> nat \<Rightarrow> conversation_row" where
  "turn_row phone role msg stamp =
     \<lparr>conv_phone = phone, conv_role = role, conv_content = msg, conv_created_at = stamp\<rparr>"

definition unknown_tool_text :: "string \<Rightarrow> string" where
  "unknown_tool_text name = ''Unknown tool '' @ [CHR 0x27] @ name @ [CHR 0x27] @ ''. No action taken.''"



text \<open>
  A database with four conversation rows, three of one caller, and one in which the third
  operation on a connection fails.
\<close>

definition db1 :: db where
  "db1 =
     \<lparr>committed = empty_tables\<lparr>conversations :=
        [turn_row ''+15550100'' ''user'' ''hi'' 0,
         turn_row ''+15550199'' ''user'' ''other caller'' 1,
         turn_row ''+15550100'' ''assistant'' ''Hello!'' 2,
         turn_row ''+15550100'' ''user'' ''bye'' 3]\<rparr>,
      faults = []\<rparr>"

definition db_failing :: db where
  "db_failing = db0\<lparr>faults := [False, False, True]\<rparr>"

text \<open>A search stub without state, and a second store with the same history at address 0.\<close>

definition stub_search :: "string \<Rightarrow> string \<Rightarrow> error + string" where
  "stub_search name arguments = Inr ''To reset your password, go to the login page.''"

definition world2 :: world where
  "world2 = world1\<lparr>database := db1, next_addr := 7, calls := [CallGetHistory ''+15550100'']\<rparr>"

text \<open>
  A round of the loop that ends in tool results, cut out of the loop: the store it leaves
  for the next round; \<open>None\<close> when the round ends the loop, by an answer or an exception.
  \<open>after_rounds n\<close> is the store after \<open>n\<close> such rounds.
\<close>

definition tool_round :: "env \<Rightarrow> executor \<Rightarrow> nat \<Rightarrow> world \<Rightarrow> world option" where
  "tool_round e ex m w =
     (case chat_completions_create e (lists w m) of
        Inl err \<Rightarrow> None
      | Inr choices \<Rightarrow>
          (case choices of
             [] \<Rightarrow> None
           | c # cs \<Rightarrow>
               if finish_reason c \<noteq> ''tool_calls'' then None
               else
                 (case tool_calls (choice_message c) of
                    None \<Rightarrow> None
                  | Some requested \<Rightarrow>
                      (case run_tool_calls ex m requested
                              (list_append m (Response (choice_message c))
                                 (record_call (CallModel (lists w m)) w)) of
                         (Inl err, w3) \<Rightarrow> None
                       | (Inr u, w3) \<Rightarrow> Some w3))))"

fun after_rounds :: "nat \<Rightarrow> env \<Rightarrow> executor \<Rightarrow> nat \<Rightarrow> world \<Rightarrow> world option" where
  "after_rounds 0 e ex m w = Some w"
| "after_rounds (Suc n) e ex m w =
     (case tool_round e ex m w of None \<Rightarrow> None | Some w' \<Rightarrow> after_rounds n e ex m w')"

text \<open>
  The store in which \<^verbatim>\<open>handle_speech\<close> calls \<^verbatim>\<open>get_response\<close>, once \<^verbatim>\<open>get_history\<close> has
  returned \<open>rows\<close> and left the database \<open>d\<close>: the history is the new list at \<open>next_addr w\<close>.
\<close>

definition loaded_world :: "string \<Rightarrow> string \<Rightarrow> message list \<Rightarrow> db \<Rightarrow> world \<Rightarrow> world" where
  "loaded_world caller_phone user_speech rows d w =
     record_call (CallGetResponse user_speech)
       (snd (new_list rows ((record_call (CallGetHistory caller_phone) w)\<lparr>database := d\<rparr>)))"

text \<open>
  Two more model stubs, which request a search first: one raises a timeout and one answers
  with no content, once the transcript ends with a tool result. And a database whose
  conversation rows of one caller are not in the order of their timestamps.
\<close>

definition late_failing_model :: "message list \<Rightarrow> error + choice list" where
  "late_failing_model msgs =
     (if msgs \<noteq> [] \<and> is_tool_result (last msgs) then Inl (APIError ''timeout'')
      else Inr [search_request])"

definition late_silent_model :: "message list \<Rightarrow> error + choice list" where
  "late_silent_model msgs =
     (if msgs \<noteq> [] \<and> is_tool_result (last msgs)
      then Inr [\<lparr>choice_message = \<lparr>content = None, tool_calls = None\<rparr>, finish_reason = ''stop''\<rparr>]
      else Inr [search_request])"


text \<open>
  A table of conversations whose rows carry the timestamps the default gives them: the
  \<open>k\<close>-th row has \<open>timestamp_of k\<close>.
\<close>

definition stamped :: "tables \<Rightarrow> bool" where
  "stamped t =
     (map conv_created_at (conversations t) = map (timestamp_of t) [0..<length (conversations t)])"

section \<open>The reply is never empty\<close>

lemma fallback_nonempty: "fallback_apology \<noteq> []"
  by (simp add: fallback_apology_def)

lemma get_response_with_loop:
  "get_response_with e ex u h p w = agent_loop e ex (next_addr w) (transcript_world u h w)"
  by (simp add: get_response_with_def new_list_def transcript_world_def)

lemmas agent_loop_induct = agent_loop.raw_induct [rotated 1, consumes 1, case_names round]

lemma agent_loop_reply_nonempty:
  assumes "agent_loop e ex m w = Some y"
  shows "fst y \<noteq> Inr []"
  using assms
proof (induct rule: agent_loop_induct)
  case (round loop e ex m w y)
  then show ?case
    by (auto simp: Let_def fallback_nonempty
             split: sum.splits list.splits if_splits option.splits prod.splits)
qed

lemma tool_round_loop:
  "tool_round e ex m w = Some w' \<Longrightarrow> agent_loop e ex m w = agent_loop e ex m w'"
  by (subst agent_loop.simps)
     (auto simp: tool_round_def Let_def split: sum.splits list.splits if_splits option.splits prod.splits)

lemma after_rounds_loop:
  "after_rounds n e ex m w = Some w' \<Longrightarrow> agent_loop e ex m w = agent_loop e ex m w'"
proof (induction n arbitrary: w)
  case 0
  then show ?case by simp
next
  case (Suc n)
  then obtain w1 where r: "tool_round e ex m w = Some w1" and rest: "after_rounds n e ex m w1 = Some w'"
    by (auto split: option.splits)
  from tool_round_loop [OF r] Suc.IH [OF rest] show ?case by simp
qed

lemma agent_loop_empty_answer:
  "chat_completions_create e (lists w m) = Inr (c # cs) \<Longrightarrow> finish_reason c \<noteq> ''tool_calls'' \<Longrightarrow>
   content (choice_message c) = None \<or> content (choice_message c) = Some [] \<Longrightarrow>
   agent_loop e ex m w = Some (Inr fallback_apology, record_call (CallModel (lists w m)) w)"
  by (subst agent_loop.simps) (auto simp: Let_def)

lemma stub_search_result:
  \<open>execute_tool (stub_env model) ''search_knowledge_base'' ''{"query": "password reset"}'' d
     = (Inr ''To reset your password, go to the login page.'', d)\<close>
  by (simp add: execute_tool_def stub_env_def stub_json_loads_def search_def)

lemma late_round:
  assumes m: "\<And>msgs. \<not> (msgs \<noteq> [] \<and> is_tool_result (last msgs)) \<Longrightarrow> model msgs = Inr [search_request]"
  shows "\<exists>v. after_rounds (Suc 0) (stub_env model) (execute_tool (stub_env model)) (next_addr w)
               (transcript_world u h w) = Some v
             \<and> lists v (next_addr w) \<noteq> [] \<and> is_tool_result (last (lists v (next_addr w)))"
proof -
  have c: "chat_completions_create (stub_env model) (lists (transcript_world u h w) (next_addr w))
           = Inr [search_request]"
    by (simp add: stub_env_def m transcript_world_def new_list_def)
  show ?thesis
    by (simp add: tool_round_def c)
       (simp add: search_request_def Let_def stub_search_result list_append_def record_call_def
          transcript_world_def new_list_def)
qed

lemma late_silent_first:
  "\<not> (msgs \<noteq> [] \<and> is_tool_result (last msgs)) \<Longrightarrow> late_silent_model msgs = Inr [search_request]"
  by (auto simp: late_silent_model_def)

text \<open>
  C4. When the model signals completion (its finish reason is not a tool request) and the
  content of its message is \<^verbatim>\<open>None\<close> or the empty string, \<^verbatim>\<open>get_response\<close> returns the fallback
  apology: this is stated of the loop at any transcript, and of \<^verbatim>\<open>get_response\<close> itself
  when the empty answer comes in the first round or after any number of rounds of tool
  calls. Whenever the loop, and so \<^verbatim>\<open>get_response\<close>, returns a string, the string is not
  empty; the fallback apology itself is not empty.
\<close>

theorem get_response_never_empty:
  "(chat_completions_create e (lists w m) = Inr (c # cs) \<and> finish_reason c \<noteq> ''tool_calls''
      \<and> (content (choice_message c) = None \<or> content (choice_message c) = Some [])
      \<longrightarrow> map_option fst (agent_loop e ex m w) = Some (Inr fallback_apology))
   \<and> (\<forall>s w'. agent_loop e ex m w = Some (Inr s, w') \<longrightarrow> s \<noteq> [])
   \<and> (\<forall>s w'. get_response e u h p w = Some (Inr s, w') \<longrightarrow> s \<noteq> [])
   \<and> fallback_apology \<noteq> []
   \<and> (after_rounds n e (execute_tool e) (next_addr w) (transcript_world u h w) = Some v
       \<and> chat_completions_create e (lists v (next_addr w)) = Inr (c' # cs')
       \<and> finish_reason c' \<noteq> ''tool_calls''
       \<and> (content (choice_message c') = None \<or> content (choice_message c') = Some [])
       \<longrightarrow> map_option fst (get_response e u h p w) = Some (Inr fallback_apology))"
proof -
  have first: "map_option fst (agent_loop e ex m w) = Some (Inr fallback_apology)"
    if "chat_completions_create e (lists w m) = Inr (c # cs)" "finish_reason c \<noteq> ''tool_calls''"
       "content (choice_message c) = None \<or> content (choice_message c) = Some []"
    using agent_loop_empty_answer [OF that] by simp
  have loop: "s \<noteq> []" if "agent_loop e ex m w = Some (Inr s, w')" for s w'
    using agent_loop_reply_nonempty [OF that] by simp
  have whole: "s \<noteq> []" if "get_response e u h p w = Some (Inr s, w')" for s w'
  proof -
    have "agent_loop e (execute_tool e) (next_addr w) (transcript_world u h w) = Some (Inr s, w')"
      using that by (simp add: get_response_def get_response_with_loop)
    from agent_loop_reply_nonempty [OF this] show ?thesis by simp
  qed
  have later: "map_option fst (get_response e u h p w) = Some (Inr fallback_apology)"
    if r: "after_rounds n e (execute_tool e) (next_addr w) (transcript_world u h w) = Some v"
      and m: "chat_completions_create e (lists v (next_addr w)) = Inr (c' # cs')"
        "finish_reason c' \<noteq> ''tool_calls''"
        "content (choice_message c') = None \<or> content (choice_message c') = Some []"
  proof -
    have "get_response e u h p w = agent_loop e (execute_tool e) (next_addr w) v"
      using after_rounds_loop [OF r] by (simp add: get_response_def get_response_with_loop)
    with agent_loop_empty_answer [OF m] show ?thesis by simp
  qed
  show ?thesis
    using loop first whole later fallback_nonempty by blast
qed

theorem get_response_never_empty_witness:
  "map_option fst (agent_loop (stub_env silent_model) (execute_tool (stub_env silent_model)) 0 world0)
     = Some (Inr fallback_apology)
   \<and> fallback_apology \<noteq> []
   \<and> map_option fst (get_response (stub_env silent_model) ''hello'' 0 ''+15550100'' world1)
       = Some (Inr fallback_apology)
   \<and> map_option fst (get_response (stub_env late_silent_model) ''I forgot my password'' 0
                        ''+15550100'' world1)
       = Some (Inr fallback_apology)"
proof -
  let ?silent = "\<lparr>choice_message = \<lparr>content = Some [], tool_calls = None\<rparr>, finish_reason = ''stop''\<rparr>"
  let ?none = "\<lparr>choice_message = \<lparr>content = None, tool_calls = None\<rparr>, finish_reason = ''stop''\<rparr>"
  have a: "map_option fst (agent_loop (stub_env silent_model) (execute_tool (stub_env silent_model)) 0 world0)
     = Some (Inr fallback_apology) \<and> fallback_apology \<noteq> []"
    using get_response_never_empty
      [where e = "stub_env silent_model" and w = world0 and m = 0 and c = ?silent and cs = "[]"
         and ex = "execute_tool (stub_env silent_model)"]
    by (simp add: stub_env_def silent_model_def world0_def)
  have b: "map_option fst (get_response (stub_env silent_model) ''hello'' 0 ''+15550100'' world1)
       = Some (Inr fallback_apology)"
    using get_response_never_empty
      [where e = "stub_env silent_model" and w = world1 and u = "''hello''" and h = 0 and n = 0
         and v = "transcript_world ''hello'' 0 world1" and c' = ?silent and cs' = "[]"
         and p = "''+15550100''"]
    by (simp add: stub_env_def silent_model_def)
  obtain v where v: "after_rounds (Suc 0) (stub_env late_silent_model)
        (execute_tool (stub_env late_silent_model)) (next_addr world1)
        (transcript_world ''I forgot my password'' 0 world1) = Some v"
      "lists v (next_addr world1) \<noteq> []" "is_tool_result (last (lists v (next_addr world1)))"
    using late_round [of late_silent_model world1 "''I forgot my password''" 0, OF late_silent_first]
    by blast
  have m: "chat_completions_create (stub_env late_silent_model) (lists v (next_addr world1)) = Inr [?none]"
    using v(2,3) by (simp add: stub_env_def late_silent_model_def)
  have c: "map_option fst (get_response (stub_env late_silent_model) ''I forgot my password'' 0
                        ''+15550100'' world1) = Some (Inr fallback_apology)"
    using get_response_never_empty
      [where e = "stub_env late_silent_model" and w = world1 and u = "''I forgot my password''"
         and h = 0 and n = "Suc 0" and v = v and c' = ?none and cs' = "[]" and p = "''+15550100''"]
      v(1) m
    by simp
  from a b c show ?thesis by simp
qed

section \<open>An empty utterance\<close>

text \<open>
  C6. When the transcribed utterance is empty once stripped, \<^verbatim>\<open>handle_speech\<close> returns the
  directive that asks the caller to repeat and leaves the whole state as it was: no call
  is recorded (neither \<^verbatim>\<open>get_history\<close> nor \<^verbatim>\<open>get_response\<close> nor \<^verbatim>\<open>save_turn\<close>), the database
  and its failure oracle are untouched, no list is created. This holds for every model
  stub and every database, also those that would raise.
\<close>

theorem empty_utterance_repeat_prompt:
  "strip (form_get r ''SpeechResult'' []) = [] \<Longrightarrow>
     handle_speech e r w = Some (Inr repeat_prompt, w)"
  by (simp add: handle_speech_def Let_def)

theorem empty_utterance_repeat_prompt_witness:
  "strip (form_get \<lparr>form = [''SpeechResult'' \<mapsto> ''  '', ''From'' \<mapsto> ''+15550100'']\<rparr>
            ''SpeechResult'' []) = []
   \<and> handle_speech (stub_env failing_model)
        \<lparr>form = [''SpeechResult'' \<mapsto> ''  '', ''From'' \<mapsto> ''+15550100'']\<rparr> world0
      = Some (Inr repeat_prompt, world0)"
proof -
  have h: "strip (form_get \<lparr>form = [''SpeechResult'' \<mapsto> ''  '', ''From'' \<mapsto> ''+15550100'']\<rparr>
                    ''SpeechResult'' []) = []"
    by (simp add: strip_def form_get_def whitespace_def drop_leading.simps)
  show ?thesis
    using h empty_utterance_repeat_prompt [OF h, of "stub_env failing_model" world0] by simp
qed

section \<open>The loop has no bound on its rounds\<close>

lemma run_tool_calls_returns:
  "\<forall>tc \<in> set requested. \<forall>d. \<exists>out d'. ex (tc_name tc) (tc_arguments tc) d = (Inr out, d')
   \<Longrightarrow> \<exists>w'. run_tool_calls ex m requested w = (Inr (), w')"
proof (induction requested arbitrary: w)
  case Nil
  then show ?case by simp
next
  case (Cons tc rest)
  obtain out d' where
    "ex (tc_name tc) (tc_arguments tc)
        (database (record_call (CallTool (tc_name tc) (tc_arguments tc)) w)) = (Inr out, d')"
    using Cons.prems by (meson list.set_intros(1))
  moreover have "\<forall>tc \<in> set rest. \<forall>d. \<exists>out d'. ex (tc_name tc) (tc_arguments tc) d = (Inr out, d')"
    using Cons.prems by simp
  ultimately show ?case
    using Cons.IH by (simp add: Let_def)
qed

lemma agent_loop_never_returns:
  assumes "always_requests_tools e ex"
  shows "agent_loop e ex m w = None"
proof -
  have "False" if "agent_loop e ex m w = Some y" for y
    using that assms
  proof (induct rule: agent_loop_induct)
    case (round loop e ex m w y)
    obtain c cs requested where c: "chat_completions_create e (lists w m) = Inr (c # cs)"
        "finish_reason c = ''tool_calls''" "tool_calls (choice_message c) = Some requested"
        "\<forall>tc \<in> set requested. \<forall>d. \<exists>out d'. ex (tc_name tc) (tc_arguments tc) d = (Inr out, d')"
      using round(3) unfolding always_requests_tools_def by blast
    obtain w' where w': "run_tool_calls ex m requested
        (list_append m (Response (choice_message c)) (record_call (CallModel (lists w m)) w))
        = (Inr (), w')"
      using run_tool_calls_returns [OF c(4)] by blast
    from round(2) c(1,2,3) w' have "loop e ex m w' = Some y"
      by (simp add: Let_def)
    then show ?case using round(1) round(3) by blast
  qed
  then show ?thesis by (cases "agent_loop e ex m w") auto
qed

lemma always_tool_stub:
  "always_requests_tools (stub_env always_tool_model) (execute_tool (stub_env always_tool_model))"
  unfolding always_requests_tools_def
  apply (rule allI)
  apply (rule exI [of _ search_request])
  apply (rule exI [of _ "[]"])
  apply (rule exI [of _ "the (tool_calls (choice_message search_request))"])
  apply (simp add: stub_env_def always_tool_model_def search_request_def execute_tool_def
      stub_json_loads_def search_def)
  done

text \<open>
  C1, as amended. \<^verbatim>\<open>get_response\<close> has no bound on its rounds: it ends only when the model
  signals completion or an exception is raised. With a model that requests tools on every
  invocation, and tools that return, it never returns: neither the fallback apology nor
  anything else.
\<close>

theorem get_response_without_cap:
  "always_requests_tools e (execute_tool e) \<Longrightarrow> get_response e u h p w = None"
  by (simp add: get_response_def get_response_with_loop agent_loop_never_returns)

theorem get_response_without_cap_witness:
  "always_requests_tools (stub_env always_tool_model) (execute_tool (stub_env always_tool_model))
   \<and> get_response (stub_env always_tool_model) ''I forgot my password'' 0 ''+15550100'' world0 = None"
  using always_tool_stub get_response_without_cap [OF always_tool_stub] by simp

text \<open>
  The claim as stated fails: with the stub that always requests a search, the call on the
  utterance \<open>hello\<close> and an empty history does not return, so it returns no fallback apology
  within any number of rounds.
\<close>

theorem get_response_loops_forever:
  "get_response (stub_env always_tool_model) ''hello'' 0 ''+15550100'' world0 = None"
  by (simp add: get_response_def get_response_with_loop
      agent_loop_never_returns [OF always_tool_stub])

section \<open>The history list is not written\<close>

lemma run_tool_calls_frame:
  "run_tool_calls ex m requested w = (r, w') \<Longrightarrow>
     next_addr w' = next_addr w \<and> (\<forall>a. a \<noteq> m \<longrightarrow> lists w' a = lists w a)"
proof (induction requested arbitrary: w)
  case Nil
  then show ?case by simp
next
  case (Cons tc rest)
  then show ?case
    by (fastforce simp: Let_def list_append_def record_call_def split: prod.splits sum.splits)
qed

lemma agent_loop_frame:
  assumes "agent_loop e ex m w = Some y"
  shows "next_addr (snd y) = next_addr w \<and> (\<forall>a. a \<noteq> m \<longrightarrow> lists (snd y) a = lists w a)"
  using assms
proof (induct rule: agent_loop_induct)
  case (round loop e ex m w y)
  show ?case
  proof (cases "chat_completions_create e (lists w m)")
    case (Inl err)
    with round(2) show ?thesis by (auto simp: Let_def record_call_def)
  next
    case (Inr choices)
    show ?thesis
    proof (cases choices)
      case Nil
      with Inr round(2) show ?thesis by (auto simp: Let_def record_call_def)
    next
      case (Cons c cs)
      show ?thesis
      proof (cases "finish_reason c \<noteq> ''tool_calls''")
        case True
        with Inr Cons round(2) show ?thesis
          by (auto simp: Let_def record_call_def split: option.splits if_splits)
      next
        case False
        let ?w2 = "list_append m (Response (choice_message c)) (record_call (CallModel (lists w m)) w)"
        have w2: "next_addr ?w2 = next_addr w \<and> (\<forall>a. a \<noteq> m \<longrightarrow> lists ?w2 a = lists w a)"
          by (simp add: list_append_def record_call_def)
        show ?thesis
        proof (cases "tool_calls (choice_message c)")
          case None
          with Inr Cons False round(2) w2 show ?thesis by (auto simp: Let_def)
        next
          case (Some requested)
          obtain r w3 where r: "run_tool_calls ex m requested ?w2 = (r, w3)"
            by (cases "run_tool_calls ex m requested ?w2") auto
          note f = run_tool_calls_frame [OF r]
          show ?thesis
          proof (cases r)
            case (Inl err)
            with Inr Cons False Some r round(2) have "y = (Inl err, w3)" by (simp add: Let_def)
            with f w2 show ?thesis by simp
          next
            case (Inr u)
            with \<open>chat_completions_create e (lists w m) = Inr choices\<close> Cons False Some r round(2)
            have "loop e ex m w3 = Some y" by (simp add: Let_def)
            from round(1) [OF this] f w2 show ?thesis by simp
          qed
        qed
      qed
    qed
  qed
qed

lemma scripted_run:
  "map_option fst
     (get_response (stub_env scripted_model) ''I forgot my password'' 0 ''+15550100'' world1)
     = Some (Inr ''Use the Forgot Password link.'')"
  apply (simp add: get_response_def get_response_with_loop)
  apply (subst agent_loop.simps)
  apply (simp add: transcript_world_def new_list_def world1_def world0_def stub_env_def
      scripted_model_def search_request_def Let_def list_append_def record_call_def
      execute_tool_def stub_json_loads_def search_def)
  apply (subst agent_loop.simps)
  apply (simp add: scripted_model_def Let_def)
  done

text \<open>
  C10. \<^verbatim>\<open>get_response\<close> does not mutate the history list it is given. With the history at an
  address \<open>h\<close> of the store (an address already given out, as every list the caller holds
  is), whenever the call ends, by a reply or by an exception, the list at \<open>h\<close> is what it
  was, elements and length, and so is every other list that existed before the call: the
  transcript is a new list and every append of the loop goes to it.
\<close>

theorem get_response_history_unchanged:
  "get_response e u h p w = Some (res, w') \<Longrightarrow> h < next_addr w \<Longrightarrow>
     lists w' h = lists w h \<and> length (lists w' h) = length (lists w h)
     \<and> (\<forall>a. a < next_addr w \<longrightarrow> lists w' a = lists w a)"
proof -
  assume r: "get_response e u h p w = Some (res, w')" and h: "h < next_addr w"
  have loop: "agent_loop e (execute_tool e) (next_addr w) (transcript_world u h w) = Some (res, w')"
    using r by (simp add: get_response_def get_response_with_loop)
  have start: "\<forall>a. a \<noteq> next_addr w \<longrightarrow> lists (transcript_world u h w) a = lists w a"
    by (simp add: transcript_world_def new_list_def)
  from agent_loop_frame [OF loop] start
  have "\<forall>a. a \<noteq> next_addr w \<longrightarrow> lists w' a = lists w a" by simp
  with h show ?thesis by auto
qed

theorem get_response_history_unchanged_witness:
  "(0::nat) < next_addr world1 \<and>
   (case get_response (stub_env scripted_model) ''I forgot my password'' 0 ''+15550100'' world1 of
      None \<Rightarrow> False
    | Some (res, w') \<Rightarrow> res = Inr ''Use the Forgot Password link.''
        \<and> lists w' 0 = [RoleContent ''user'' ''hi'', RoleContent ''assistant'' ''Hello!''])"
proof -
  obtain res w' where
    r: "get_response (stub_env scripted_model) ''I forgot my password'' 0 ''+15550100'' world1
          = Some (res, w')"
    and res: "res = Inr ''Use the Forgot Password link.''"
    using scripted_run
    by (cases "get_response (stub_env scripted_model) ''I forgot my password'' 0 ''+15550100'' world1")
       auto
  have h: "(0::nat) < next_addr world1" by (simp add: world1_def world0_def)
  from get_response_history_unchanged [OF r h] have "lists w' 0 = lists world1 0" by simp
  with r res h show ?thesis by (simp add: world1_def world0_def)
qed

section \<open>Exceptions of the model\<close>

lemma agent_loop_model_error:
  "chat_completions_create e (lists w m) = Inl err \<Longrightarrow>
     agent_loop e ex m w = Some (Inl err, record_call (CallModel (lists w m)) w)"
  by (subst agent_loop.simps) (simp add: Let_def)

lemma transcript_world_lists:
  "lists (transcript_world u h w) (next_addr w)
     = [RoleContent ''system'' SYSTEM_PROMPT] @ lists w h @ [RoleContent ''user'' u]"
  by (simp add: transcript_world_def new_list_def)

lemma finish_turn_error:
  "map_option fst (finish_turn p u (Inl err, w)) = Some (Inr (reply_directive technical_apology))"
  by (simp add: finish_turn_def Let_def split: prod.splits)

lemma get_history_db0:
  "get_history ''+15550100'' 10 (database (record_call (CallGetHistory ''+15550100'') world0))
     = (Inr [], db0)"
  by (simp add: get_history_def with_conn_def cur_execute_def conn_commit_def next_fault_def
      select_history_def db0_def empty_tables_def world0_def record_call_def)

lemma strip_speech: "strip (form_get speech_request ''SpeechResult'' []) = ''I forgot my password''"
  by (simp add: strip_def form_get_def speech_request_def whitespace_def drop_leading.simps)

lemma handle_speech_loaded:
  assumes "strip (form_get r ''SpeechResult'' []) = u" "u \<noteq> []"
    "form_get r ''From'' ''unknown'' = p"
    "get_history p 10 (database (record_call (CallGetHistory p) w)) = (Inr rows, d')"
  shows "handle_speech e r w
           = Option.bind (get_response e u (next_addr w) p (loaded_world p u rows d' w)) (finish_turn p u)"
  using assms
  by (simp add: handle_speech_def Let_def new_list_def loaded_world_def record_call_def)

lemma loaded_world_lists: "lists (loaded_world p u rows d' w) (next_addr w) = rows"
  by (simp add: loaded_world_def new_list_def record_call_def)

lemma finish_turn_never_raises: "finish_turn p u outcome \<noteq> Some (Inl err, w')"
  by (cases outcome) (simp add: finish_turn_def Let_def split: prod.splits)

lemma handle_speech_raises_only_history:
  assumes "handle_speech e r w = Some (Inl err, w')"
  shows "fst (get_history (form_get r ''From'' ''unknown'') 10
            (database (record_call (CallGetHistory (form_get r ''From'' ''unknown'')) w))) = Inl err"
proof -
  let ?p = "form_get r ''From'' ''unknown''"
  let ?u = "strip (form_get r ''SpeechResult'' [])"
  obtain x d' where g: "get_history ?p 10 (database (record_call (CallGetHistory ?p) w)) = (x, d')"
    by (cases "get_history ?p 10 (database (record_call (CallGetHistory ?p) w))") auto
  have u: "?u \<noteq> []"
    using assms by (auto simp: handle_speech_def Let_def)
  show ?thesis
  proof (cases x)
    case (Inl err')
    with assms g u show ?thesis by (simp add: handle_speech_def Let_def)
  next
    case (Inr rows)
    with g have "handle_speech e r w
        = Option.bind (get_response e ?u (next_addr w) ?p (loaded_world ?p ?u rows d' w)) (finish_turn ?p ?u)"
      using handle_speech_loaded [OF refl u refl] by simp
    with assms finish_turn_never_raises show ?thesis
      by (auto simp: bind_eq_Some_conv)
  qed
qed

lemma late_failing_first:
  "\<not> (msgs \<noteq> [] \<and> is_tool_result (last msgs)) \<Longrightarrow> late_failing_model msgs = Inr [search_request]"
  by (auto simp: late_failing_model_def)

text \<open>
  C3, as amended. An error raised by the model invocation is not caught in \<^verbatim>\<open>get_response\<close>:
  it leaves the loop, and \<^verbatim>\<open>get_response\<close> with it, as an exception, whether it is raised in
  the first round or after any number of rounds of tool calls. It is \<^verbatim>\<open>handle_speech\<close> that
  catches it, as it catches every exception of \<^verbatim>\<open>get_response\<close>: when the utterance is not
  empty and the history has been loaded, whatever exception \<^verbatim>\<open>get_response\<close> ends with, the
  reply spoken is the fixed technical apology of \<^verbatim>\<open>handle_speech\<close>, and \<^verbatim>\<open>handle_speech\<close>
  returns its directive. The only exception that leaves \<^verbatim>\<open>handle_speech\<close> is one of
  \<^verbatim>\<open>get_history\<close>.
\<close>

theorem model_error_caught_by_handle_speech:
  "(chat_completions_create e (lists w m) = Inl err \<longrightarrow>
      map_option fst (agent_loop e ex m w) = Some (Inl err))
   \<and> (chat_completions_create e
         ([RoleContent ''system'' SYSTEM_PROMPT] @ lists w h @ [RoleContent ''user'' u]) = Inl err \<longrightarrow>
      map_option fst (get_response e u h p w) = Some (Inl err))
   \<and> (strip (form_get r ''SpeechResult'' []) = u \<and> u \<noteq> [] \<and> form_get r ''From'' ''unknown'' = p
       \<and> get_history p 10 (database (record_call (CallGetHistory p) w)) = (Inr rows, d')
       \<and> chat_completions_create e
           ([RoleContent ''system'' SYSTEM_PROMPT] @ rows @ [RoleContent ''user'' u]) = Inl err \<longrightarrow>
      map_option fst (handle_speech e r w) = Some (Inr (reply_directive technical_apology)))
   \<and> (after_rounds n e (execute_tool e) (next_addr w) (transcript_world u h w) = Some v
       \<and> chat_completions_create e (lists v (next_addr w)) = Inl err \<longrightarrow>
      map_option fst (get_response e u h p w) = Some (Inl err))
   \<and> (strip (form_get r ''SpeechResult'' []) = u \<and> u \<noteq> [] \<and> form_get r ''From'' ''unknown'' = p
       \<and> get_history p 10 (database (record_call (CallGetHistory p) w)) = (Inr rows, d')
       \<and> get_response e u (next_addr w) p (loaded_world p u rows d' w) = Some (Inl raised, wr) \<longrightarrow>
      map_option fst (handle_speech e r w) = Some (Inr (reply_directive technical_apology)))
   \<and> (handle_speech e r w = Some (Inl raised, wh) \<longrightarrow>
      fst (get_history (form_get r ''From'' ''unknown'') 10
             (database (record_call (CallGetHistory (form_get r ''From'' ''unknown'')) w)))
        = Inl raised)"
proof (intro conjI impI)
  assume "chat_completions_create e (lists w m) = Inl err"
  then show "map_option fst (agent_loop e ex m w) = Some (Inl err)"
    by (simp add: agent_loop_model_error)
next
  assume "chat_completions_create e
         ([RoleContent ''system'' SYSTEM_PROMPT] @ lists w h @ [RoleContent ''user'' u]) = Inl err"
  then have "chat_completions_create e (lists (transcript_world u h w) (next_addr w)) = Inl err"
    by (simp only: transcript_world_lists)
  then show "map_option fst (get_response e u h p w) = Some (Inl err)"
    by (simp add: get_response_def get_response_with_loop agent_loop_model_error)
next
  assume a: "strip (form_get r ''SpeechResult'' []) = u \<and> u \<noteq> [] \<and> form_get r ''From'' ''unknown'' = p
       \<and> get_history p 10 (database (record_call (CallGetHistory p) w)) = (Inr rows, d')
       \<and> chat_completions_create e
           ([RoleContent ''system'' SYSTEM_PROMPT] @ rows @ [RoleContent ''user'' u]) = Inl err"
  let ?w2 = "loaded_world p u rows d' w"
  have "chat_completions_create e (lists (transcript_world u (next_addr w) ?w2) (next_addr ?w2)) = Inl err"
    using a by (simp only: transcript_world_lists loaded_world_lists)
  then have g: "map_option fst (get_response e u (next_addr w) p ?w2) = Some (Inl err)"
    by (simp add: get_response_def get_response_with_loop agent_loop_model_error)
  then obtain w3 where "get_response e u (next_addr w) p ?w2 = Some (Inl err, w3)" by auto
  with a show "map_option fst (handle_speech e r w) = Some (Inr (reply_directive technical_apology))"
    by (simp add: handle_speech_loaded finish_turn_error)
next
  assume a: "after_rounds n e (execute_tool e) (next_addr w) (transcript_world u h w) = Some v
       \<and> chat_completions_create e (lists v (next_addr w)) = Inl err"
  then have r: "after_rounds n e (execute_tool e) (next_addr w) (transcript_world u h w) = Some v"
    by simp
  have "get_response e u h p w = agent_loop e (execute_tool e) (next_addr w) v"
    using after_rounds_loop [OF r] by (simp add: get_response_def get_response_with_loop)
  with a show "map_option fst (get_response e u h p w) = Some (Inl err)"
    by (simp add: agent_loop_model_error)
next
  assume a: "strip (form_get r ''SpeechResult'' []) = u \<and> u \<noteq> [] \<and> form_get r ''From'' ''unknown'' = p
       \<and> get_history p 10 (database (record_call (CallGetHistory p) w)) = (Inr rows, d')
       \<and> get_response e u (next_addr w) p (loaded_world p u rows d' w) = Some (Inl raised, wr)"
  then show "map_option fst (handle_speech e r w) = Some (Inr (reply_directive technical_apology))"
    by (simp add: handle_speech_loaded finish_turn_error)
next
  assume "handle_speech e r w = Some (Inl raised, wh)"
  then show "fst (get_history (form_get r ''From'' ''unknown'') 10
             (database (record_call (CallGetHistory (form_get r ''From'' ''unknown'')) w)))
        = Inl raised"
    by (rule handle_speech_raises_only_history)
qed

theorem model_error_caught_by_handle_speech_witness:
  "map_option fst (agent_loop (stub_env failing_model) (execute_tool (stub_env failing_model)) 0 world0)
     = Some (Inl (APIError ''timeout''))
   \<and> map_option fst (get_response (stub_env failing_model) ''I forgot my password'' 0 ''+15550100'' world0)
       = Some (Inl (APIError ''timeout''))
   \<and> map_option fst (handle_speech (stub_env failing_model) speech_request world0)
       = Some (Inr (reply_directive technical_apology))
   \<and> map_option fst (get_response (stub_env late_failing_model) ''I forgot my password'' 0
                        ''+15550100'' world1)
       = Some (Inl (APIError ''timeout''))
   \<and> map_option fst (handle_speech (stub_env late_failing_model) speech_request world0)
       = Some (Inr (reply_directive technical_apology))"
proof -
  have m: "chat_completions_create (stub_env failing_model) msgs = Inl (APIError ''timeout'')" for msgs
    by (simp add: stub_env_def failing_model_def)
  have p: "form_get speech_request ''From'' ''unknown'' = ''+15550100''"
    by (simp add: form_get_def speech_request_def)
  have u: "''I forgot my password'' \<noteq> []" by simp
  have first: "map_option fst (agent_loop (stub_env failing_model) (execute_tool (stub_env failing_model)) 0 world0)
     = Some (Inl (APIError ''timeout''))
   \<and> map_option fst (get_response (stub_env failing_model) ''I forgot my password'' 0 ''+15550100'' world0)
       = Some (Inl (APIError ''timeout''))
   \<and> map_option fst (handle_speech (stub_env failing_model) speech_request world0)
       = Some (Inr (reply_directive technical_apology))"
    using model_error_caught_by_handle_speech
      [where e = "stub_env failing_model" and w = world0 and m = 0 and err = "APIError ''timeout''"
         and ex = "execute_tool (stub_env failing_model)" and h = 0 and u = "''I forgot my password''"
         and p = "''+15550100''" and r = speech_request and rows = "[]" and d' = db0]
      m p strip_speech get_history_db0
    by simp
  let ?e = "stub_env late_failing_model"
  have late: "chat_completions_create ?e (lists v a) = Inl (APIError ''timeout'')"
    if "lists v a \<noteq> []" "is_tool_result (last (lists v a))" for v a
    using that by (simp add: stub_env_def late_failing_model_def)
  obtain v where v: "after_rounds (Suc 0) ?e (execute_tool ?e) (next_addr world1)
        (transcript_world ''I forgot my password'' 0 world1) = Some v"
      "lists v (next_addr world1) \<noteq> []" "is_tool_result (last (lists v (next_addr world1)))"
    using late_round [of late_failing_model world1 "''I forgot my password''" 0, OF late_failing_first]
    by blast
  have second: "map_option fst (get_response ?e ''I forgot my password'' 0 ''+15550100'' world1)
       = Some (Inl (APIError ''timeout''))"
    using model_error_caught_by_handle_speech
      [where e = ?e and w = world1 and n = "Suc 0" and u = "''I forgot my password''" and h = 0
         and v = v and err = "APIError ''timeout''" and p = "''+15550100''"]
      v(1) late [OF v(2,3)]
    by simp
  let ?lw = "loaded_world ''+15550100'' ''I forgot my password'' [] db0 world0"
  obtain v' where v': "after_rounds (Suc 0) ?e (execute_tool ?e) (next_addr ?lw)
        (transcript_world ''I forgot my password'' (next_addr world0) ?lw) = Some v'"
      "lists v' (next_addr ?lw) \<noteq> []" "is_tool_result (last (lists v' (next_addr ?lw)))"
    using late_round [of late_failing_model ?lw "''I forgot my password''" "next_addr world0",
        OF late_failing_first]
    by blast
  have "map_option fst (get_response ?e ''I forgot my password'' (next_addr world0) ''+15550100'' ?lw)
       = Some (Inl (APIError ''timeout''))"
    using model_error_caught_by_handle_speech
      [where e = ?e and w = ?lw and n = "Suc 0" and u = "''I forgot my password''"
         and h = "next_addr world0" and v = v' and err = "APIError ''timeout''" and p = "''+15550100''"]
      v'(1) late [OF v'(2,3)]
    by simp
  then obtain w3 where g: "get_response ?e ''I forgot my password'' (next_addr world0) ''+15550100'' ?lw
       = Some (Inl (APIError ''timeout''), w3)"
    by auto
  have third: "map_option fst (handle_speech ?e speech_request world0)
       = Some (Inr (reply_directive technical_apology))"
    using model_error_caught_by_handle_speech
      [where e = ?e and w = world0 and r = speech_request and u = "''I forgot my password''"
         and p = "''+15550100''" and rows = "[]" and d' = db0 and raised = "APIError ''timeout''"
         and wr = w3]
      p u strip_speech get_history_db0 g
    by simp
  from first second third show ?thesis by simp
qed

text \<open>
  The claim as stated fails: with a model stub that raises a timeout, \<^verbatim>\<open>get_response\<close> ends
  with that exception and not with the fallback apology.
\<close>

theorem get_response_raises_model_error:
  "map_option fst (get_response (stub_env failing_model) ''hello'' 0 ''+15550100'' world0)
     = Some (Inl (APIError ''timeout''))"
  by (simp add: get_response_def get_response_with_loop agent_loop_model_error
      stub_env_def failing_model_def)

section \<open>A round of tool calls\<close>






section \<open>Stubs without state\<close>

lemma stub_tools_apply: "stub_tools ts name arguments d = (ts name arguments, d)"
  by (simp add: stub_tools_def)

lemma run_tool_calls_stub_sim:
  assumes st: "\<And>name arguments d. ex name arguments d = (ts name arguments, d)"
  shows "run_tool_calls ex m requested w = (r, w') \<Longrightarrow> lists w m = lists v n \<Longrightarrow>
     \<exists>v'. run_tool_calls ex n requested v = (r, v') \<and> lists w' m = lists v' n"
proof (induction requested arbitrary: w v)
  case Nil
  then show ?case by simp
next
  case (Cons tc rest)
  show ?case
  proof (cases "ts (tc_name tc) (tc_arguments tc)")
    case (Inl err)
    have exd: "ex (tc_name tc) (tc_arguments tc) d = (Inl err, d)" for d
      using st [of "tc_name tc" "tc_arguments tc" d] Inl by simp
    with Cons.prems show ?thesis
      by (auto simp: Let_def record_call_def)
  next
    case (Inr out)
    have exd: "ex (tc_name tc) (tc_arguments tc) d = (Inr out, d)" for d
      using st [of "tc_name tc" "tc_arguments tc" d] Inr by simp
    let ?w2 = "list_append m (ToolResult (tc_id tc) out)
        ((record_call (CallTool (tc_name tc) (tc_arguments tc)) w)
           \<lparr>database := database (record_call (CallTool (tc_name tc) (tc_arguments tc)) w)\<rparr>)"
    let ?v2 = "list_append n (ToolResult (tc_id tc) out)
        ((record_call (CallTool (tc_name tc) (tc_arguments tc)) v)
           \<lparr>database := database (record_call (CallTool (tc_name tc) (tc_arguments tc)) v)\<rparr>)"
    have w: "run_tool_calls ex m rest ?w2 = (r, w')"
      using Cons.prems(1) by (simp add: Let_def exd)
    have eq: "lists ?w2 m = lists ?v2 n"
      using Cons.prems(2) by (simp add: list_append_def record_call_def)
    from Cons.IH [OF w eq] obtain v' where
      "run_tool_calls ex n rest ?v2 = (r, v')" "lists w' m = lists v' n" by blast
    then show ?thesis by (simp add: Let_def exd)
  qed
qed

lemma agent_loop_stub_sim:
  assumes "agent_loop e ex m w = Some y" "\<forall>name arguments d. ex name arguments d = (ts name arguments, d)"
    "lists w m = lists v n"
  shows "\<exists>y'. agent_loop e ex n v = Some y' \<and> fst y' = fst y"
  using assms
proof (induct arbitrary: v rule: agent_loop_induct)
  case (round loop e ex m w y)
  note body = round(2) and ex = round(3) and eq = round(4)
  show ?case
  proof (cases "chat_completions_create e (lists w m)")
    case (Inl err)
    with body eq show ?thesis
      by (subst agent_loop.simps) (auto simp: Let_def)
  next
    case (Inr choices)
    show ?thesis
    proof (cases choices)
      case Nil
      with Inr body eq show ?thesis
        by (subst agent_loop.simps) (auto simp: Let_def)
    next
      case (Cons c cs)
      show ?thesis
      proof (cases "finish_reason c \<noteq> ''tool_calls''")
        case True
        with Inr Cons body eq show ?thesis
          by (subst agent_loop.simps) (auto simp: Let_def split: option.splits if_splits)
      next
        case False
        let ?w2 = "list_append m (Response (choice_message c)) (record_call (CallModel (lists w m)) w)"
        let ?v2 = "list_append n (Response (choice_message c)) (record_call (CallModel (lists v n)) v)"
        have eq2: "lists ?w2 m = lists ?v2 n"
          using eq by (simp add: list_append_def record_call_def)
        show ?thesis
        proof (cases "tool_calls (choice_message c)")
          case None
          with Inr Cons False body eq show ?thesis
            by (subst agent_loop.simps) (auto simp: Let_def)
        next
          case (Some requested)
          obtain r w3 where r: "run_tool_calls ex m requested ?w2 = (r, w3)"
            by (cases "run_tool_calls ex m requested ?w2") auto
          from run_tool_calls_stub_sim [OF _ r eq2, of ts] ex obtain v3 where
            v3: "run_tool_calls ex n requested ?v2 = (r, v3)" "lists w3 m = lists v3 n"
            by blast
          have unfold_v: "agent_loop e ex n v =
              (case r of Inl err \<Rightarrow> Some (Inl err, v3) | Inr u \<Rightarrow> agent_loop e ex n v3)"
            using Inr Cons False Some v3(1) eq
            by (subst agent_loop.simps) (simp add: Let_def)
          show ?thesis
          proof (cases r)
            case (Inl err)
            with \<open>chat_completions_create e (lists w m) = Inr choices\<close> Cons False Some r body
            have "y = (Inl err, w3)" by (simp add: Let_def)
            with unfold_v Inl show ?thesis by simp
          next
            case (Inr u)
            with \<open>chat_completions_create e (lists w m) = Inr choices\<close> Cons False Some r body
            have "loop e ex m w3 = Some y" by (simp add: Let_def)
            from round(1) [OF this ex v3(2)] unfold_v Inr show ?thesis by simp
          qed
        qed
      qed
    qed
  qed
qed

lemma agent_loop_stub_reply:
  assumes "lists w m = lists v n"
  shows "map_option fst (agent_loop e (stub_tools ts) m w)
           = map_option fst (agent_loop e (stub_tools ts) n v)"
proof (cases "agent_loop e (stub_tools ts) m w")
  case None
  show ?thesis
  proof (cases "agent_loop e (stub_tools ts) n v")
    case (Some y')
    from agent_loop_stub_sim [OF Some _ assms [symmetric], of ts] None show ?thesis
      by (simp add: stub_tools_apply)
  qed (simp add: None)
next
  case (Some y)
  from agent_loop_stub_sim [OF Some _ assms, of ts] Some show ?thesis
    by (auto simp: stub_tools_apply)
qed

lemma scripted_stub_run:
  "map_option fst
     (get_response_with (stub_env scripted_model) (stub_tools stub_search)
        ''I forgot my password'' 0 ''+15550100'' world1)
     = Some (Inr ''Use the Forgot Password link.'')"
  apply (simp add: get_response_with_loop)
  apply (subst agent_loop.simps)
  apply (simp add: transcript_world_def new_list_def world1_def world0_def stub_env_def
      scripted_model_def search_request_def Let_def list_append_def record_call_def
      stub_tools_apply stub_search_def)
  apply (subst agent_loop.simps)
  apply (simp add: scripted_model_def Let_def)
  done

text \<open>
  C8. With a model stub (a function of the transcript) and a tool stub without state (a
  function of the name and the arguments), the reply of \<^verbatim>\<open>get_response\<close> is a function of the
  history's elements and the utterance: two calls with the same utterance and histories
  of the same elements give the same outcome (the same reply, the same exception, or both
  no return), whatever else differs in the store, the database and the calls made before.
  In particular a second call after a first one that returned, on the same history list,
  returns the same reply.
\<close>

theorem get_response_deterministic:
  "(lists w1 h1 = lists w2 h2 \<longrightarrow>
      map_option fst (get_response_with e (stub_tools ts) u h1 p w1)
        = map_option fst (get_response_with e (stub_tools ts) u h2 p w2))
   \<and> (get_response_with e (stub_tools ts) u h p w = Some (reply, w') \<and> h < next_addr w \<longrightarrow>
        map_option fst (get_response_with e (stub_tools ts) u h p w') = Some reply)"
proof -
  have det: "map_option fst (get_response_with e (stub_tools ts) u a p v)
        = map_option fst (get_response_with e (stub_tools ts) u b p v')"
    if "lists v a = lists v' b" for a b v v'
  proof -
    from that have "lists (transcript_world u a v) (next_addr v)
               = lists (transcript_world u b v') (next_addr v')"
      by (simp add: transcript_world_def new_list_def)
    from agent_loop_stub_reply [OF this] show ?thesis
      by (simp add: get_response_with_loop)
  qed
  have again: "map_option fst (get_response_with e (stub_tools ts) u h p w') = Some reply"
    if r: "get_response_with e (stub_tools ts) u h p w = Some (reply, w')" and h: "h < next_addr w"
  proof -
    from r have loop: "agent_loop e (stub_tools ts) (next_addr w) (transcript_world u h w) = Some (reply, w')"
      by (simp add: get_response_with_loop)
    have "lists (transcript_world u h w) h = lists w h"
      using h by (simp add: transcript_world_def new_list_def)
    with agent_loop_frame [OF loop] h have "lists w' h = lists w h" by simp
    from det [OF this] r show ?thesis by simp
  qed
  show ?thesis using det again by blast
qed

theorem get_response_deterministic_witness:
  "lists world1 0 = lists world2 0
   \<and> map_option fst (get_response_with (stub_env scripted_model) (stub_tools stub_search)
         ''I forgot my password'' 0 ''+15550100'' world2)
       = Some (Inr ''Use the Forgot Password link.'')"
proof -
  have h: "lists world1 0 = lists world2 0" by (simp add: world2_def)
  from get_response_deterministic
    [of world1 0 world2 0 "stub_env scripted_model" stub_search "''I forgot my password''" "''+15550100''"]
    h scripted_stub_run
  show ?thesis by simp
qed

section \<open>Connections and transactions\<close>

lemma next_fault_committed: "next_fault d = (f, d') \<Longrightarrow> committed d' = committed d"
  by (auto simp: next_fault_def split: list.splits)

lemma cur_execute_cases:
  "cur_execute q c = (res, c') \<Longrightarrow>
     committed (conn_db c') = committed (conn_db c) \<and> conn_in_txn c'
     \<and> ((\<exists>err. res = Inl err) \<or> (res, conn_tables c') = q (conn_tables c))"
  by (cases "next_fault (conn_db c)"; cases "q (conn_tables c)"; cases "fst (next_fault (conn_db c))")
     (auto simp: cur_execute_def dest: next_fault_committed)

lemma conn_commit_cases:
  "conn_commit c = (res, c') \<Longrightarrow> conn_in_txn c \<Longrightarrow>
     (res = Inr () \<and> committed (conn_db c') = conn_tables c \<and> \<not> conn_in_txn c')
     \<or> ((\<exists>err. res = Inl err) \<and> committed (conn_db c') = committed (conn_db c))"
  by (cases "next_fault (conn_db c)"; cases "fst (next_fault (conn_db c))")
     (auto simp: conn_commit_def dest: next_fault_committed)

lemma conn_commit_idle: "\<not> conn_in_txn c \<Longrightarrow> conn_commit c = (Inr (), c)"
  by (simp add: conn_commit_def)

lemma with_conn_cases:
  assumes "with_conn body d = (res, d')"
  shows "((\<exists>err. res = Inl err) \<and> committed d' = committed d)
     \<or> (\<exists>d1 x c. committed d1 = committed d
            \<and> body \<lparr>conn_tables = committed d1, conn_in_txn = False, conn_db = d1\<rparr> = (x, c)
            \<and> (case x of
                  Inl err \<Rightarrow> res = Inl err \<and> d' = conn_db c
                | Inr y \<Rightarrow> (\<exists>r c'. conn_commit c = (r, c') \<and> d' = conn_db c'
                             \<and> (case r of Inl err \<Rightarrow> res = Inl err | Inr u \<Rightarrow> res = Inr y))))"
proof -
  obtain f d1 where nf: "next_fault d = (f, d1)" by (cases "next_fault d") auto
  note c1 = next_fault_committed [OF nf]
  show ?thesis
  proof (cases f)
    case True
    with assms nf c1 show ?thesis by (auto simp: with_conn_def)
  next
    case False
    obtain x c where b: "body \<lparr>conn_tables = committed d1, conn_in_txn = False, conn_db = d1\<rparr> = (x, c)"
      by (cases "body \<lparr>conn_tables = committed d1, conn_in_txn = False, conn_db = d1\<rparr>") auto
    obtain r c' where cc: "conn_commit c = (r, c')" by (cases "conn_commit c") auto
    have "case x of
                  Inl err \<Rightarrow> res = Inl err \<and> d' = conn_db c
                | Inr y \<Rightarrow> (\<exists>r c'. conn_commit c = (r, c') \<and> d' = conn_db c'
                             \<and> (case r of Inl err \<Rightarrow> res = Inl err | Inr u \<Rightarrow> res = Inr y))"
      using assms nf False b cc
      by (cases x; cases r) (auto simp: with_conn_def)
    with c1 b show ?thesis by blast
  qed
qed




lemma insert_conversation_result:
  "insert_conversation phone role msg t
     = (Inr (), t\<lparr>conversations := conversations t @
          [turn_row phone role msg (timestamp_of t (length (conversations t)))]\<rparr>)"
  by (simp add: insert_conversation_def turn_row_def)







lemma save_turn_db0:
  "fst (save_turn ''+15550100'' ''hi'' ''Hello!'' db0) = Inr ()"
  by (simp add: save_turn_def with_conn_def cur_execute_def conn_commit_def next_fault_def
      insert_conversation_def db0_def)

lemma save_turn_db_failing:
  "fst (save_turn ''+15550100'' ''hi'' ''Hello!'' db_failing) = Inl OperationalError"
  by (simp add: save_turn_def with_conn_def cur_execute_def conn_commit_def next_fault_def
      insert_conversation_def db0_def db_failing_def)

lemma save_turn_cases:
  "save_turn phone user_msg assistant_msg d = (res, d') \<Longrightarrow>
     (res = Inr ()
        \<and> committed d' = (committed d)\<lparr>conversations := conversations (committed d) @
             [turn_row phone ''user'' user_msg
                (timestamp_of (committed d) (length (conversations (committed d)))),
              turn_row phone ''assistant'' assistant_msg
                (timestamp_of (committed d) (Suc (length (conversations (committed d)))))]\<rparr>)
     \<or> ((\<exists>err. res = Inl err) \<and> committed d' = committed d
         \<and> (\<forall>caller limit fs. get_history caller limit (d'\<lparr>faults := fs\<rparr>)
               = get_history caller limit (d\<lparr>faults := fs\<rparr>)))"
proof -
  have same: "\<forall>caller limit fs. get_history caller limit (d'\<lparr>faults := fs\<rparr>)
               = get_history caller limit (d\<lparr>faults := fs\<rparr>)"
    if "committed d' = committed d"
  proof -
    have "d'\<lparr>faults := fs\<rparr> = d\<lparr>faults := fs\<rparr>" for fs
      using that by (cases d; cases d') simp
    then show ?thesis by simp
  qed
  let ?ins1 = "insert_conversation phone ''user'' user_msg"
  let ?ins2 = "insert_conversation phone ''assistant'' assistant_msg"
  let ?body = "\<lambda>c. case cur_execute ?ins1 c of
         (Inl err, c') \<Rightarrow> (Inl err, c')
       | (Inr u, c') \<Rightarrow>
           (case cur_execute ?ins2 c' of
              (Inl err, c'') \<Rightarrow> (Inl err, c'')
            | (Inr u', c'') \<Rightarrow> conn_commit c'')"
  assume "save_turn phone user_msg assistant_msg d = (res, d')"
  then have w: "with_conn ?body d = (res, d')" by (simp add: save_turn_def)
  from with_conn_cases [OF w] show ?thesis
  proof (elim disjE exE conjE)
    fix err
    assume "res = Inl err" "committed d' = committed d"
    then show ?thesis using same by auto
  next
    fix d1 x c
    let ?c0 = "\<lparr>conn_tables = committed d1, conn_in_txn = False, conn_db = d1\<rparr>"
    assume d1: "committed d1 = committed d" and b: "?body ?c0 = (x, c)"
      and x: "case x of Inl err \<Rightarrow> res = Inl err \<and> d' = conn_db c
          | Inr y \<Rightarrow> \<exists>r c'. conn_commit c = (r, c') \<and> d' = conn_db c'
              \<and> (case r of Inl err \<Rightarrow> res = Inl err | Inr u \<Rightarrow> res = Inr y)"
    obtain r1 c1 where e1: "cur_execute ?ins1 ?c0 = (r1, c1)"
      by (cases "cur_execute ?ins1 ?c0") auto
    note f1 = cur_execute_cases [OF e1]
    show ?thesis
    proof (cases r1)
      case (Inl err)
      with b e1 have "x = Inl err" "c = c1" by auto
      with x f1 d1 show ?thesis using same by auto
    next
      case (Inr u1)
      with f1 have t1: "conn_tables c1 = snd (?ins1 (committed d))"
        using d1 by (auto simp: insert_conversation_result)
      obtain r2 c2 where e2: "cur_execute ?ins2 c1 = (r2, c2)"
        by (cases "cur_execute ?ins2 c1") auto
      note f2 = cur_execute_cases [OF e2]
      show ?thesis
      proof (cases r2)
        case (Inl err)
        with b e1 e2 Inr have "x = Inl err" "c = c2" by auto
        with x f1 f2 d1 show ?thesis using same by auto
      next
        case (Inr u2)
        with f2 have t2: "conn_tables c2 = snd (?ins2 (conn_tables c1))"
          by (auto simp: insert_conversation_result)
        from b e1 e2 \<open>r1 = Inr u1\<close> Inr have cc: "conn_commit c2 = (x, c)" by simp
        from f2 have "conn_in_txn c2" by simp
        from conn_commit_cases [OF cc this] show ?thesis
        proof (elim disjE conjE exE)
          fix err assume "x = Inl err" "committed (conn_db c) = committed (conn_db c2)"
          with x f1 f2 d1 show ?thesis using same by auto
        next
          assume ok: "x = Inr ()" "committed (conn_db c) = conn_tables c2" "\<not> conn_in_txn c"
          from conn_commit_idle [OF ok(3)] x ok(1) have "res = Inr ()" "d' = conn_db c"
            by auto
          with ok(2) t1 t2 show ?thesis
            by (simp add: insert_conversation_result)
        qed
      qed
    qed
  qed
qed

lemma stamped_distinct:
  assumes "stamped t" "inj (timestamp_of t)"
  shows "distinct (map conv_created_at (filter P (conversations t)))"
proof -
  have "distinct (map (timestamp_of t) [0..<length (conversations t)])"
    using assms(2) by (simp add: distinct_map inj_on_def inj_def)
  then have "distinct (map conv_created_at (conversations t))"
    using assms(1) by (simp add: stamped_def)
  then show ?thesis by (rule distinct_map_filter)
qed

lemma save_turn_stamped:
  assumes "stamped (committed d)" "save_turn phone user_msg assistant_msg d = (res, d')"
  shows "stamped (committed d') \<and> timestamp_of (committed d') = timestamp_of (committed d)"
  using save_turn_cases [OF assms(2)] assms(1)
  by (auto simp: stamped_def turn_row_def)

text \<open>
  C7. \<^verbatim>\<open>save_turn\<close> is atomic. Whatever operation on the connection fails, if any: either the
  call returns and the committed table of conversations is the one before followed by the
  caller's row and then the agent's row, or the call raises and the committed tables are
  what they were, so that any later load, whatever its own failures, returns what it would
  have returned before the call.
\<close>

theorem save_turn_atomic:
  "save_turn phone user_msg assistant_msg d = (res, d') \<Longrightarrow>
     (res = Inr ()
        \<and> committed d' = (committed d)\<lparr>conversations := conversations (committed d) @
             [turn_row phone ''user'' user_msg
                (timestamp_of (committed d) (length (conversations (committed d)))),
              turn_row phone ''assistant'' assistant_msg
                (timestamp_of (committed d) (Suc (length (conversations (committed d)))))]\<rparr>)
     \<or> ((\<exists>err. res = Inl err) \<and> committed d' = committed d
         \<and> (\<forall>caller limit fs. get_history caller limit (d'\<lparr>faults := fs\<rparr>)
               = get_history caller limit (d\<lparr>faults := fs\<rparr>)))"
  by (rule save_turn_cases)

theorem save_turn_atomic_witness:
  "fst (save_turn ''+15550100'' ''hi'' ''Hello!'' db0) = Inr ()
   \<and> conversations (committed (snd (save_turn ''+15550100'' ''hi'' ''Hello!'' db0)))
       = [turn_row ''+15550100'' ''user'' ''hi'' 0, turn_row ''+15550100'' ''assistant'' ''Hello!'' 1]
   \<and> fst (save_turn ''+15550100'' ''hi'' ''Hello!'' db_failing) = Inl OperationalError
   \<and> conversations (committed (snd (save_turn ''+15550100'' ''hi'' ''Hello!'' db_failing))) = []"
proof -
  let ?ok = "save_turn ''+15550100'' ''hi'' ''Hello!'' db0"
  let ?bad = "save_turn ''+15550100'' ''hi'' ''Hello!'' db_failing"
  have a: "?ok = (fst ?ok, snd ?ok)" and b: "?bad = (fst ?bad, snd ?bad)" by simp_all
  from save_turn_atomic [OF a] save_turn_db0
  have "conversations (committed (snd ?ok))
       = [turn_row ''+15550100'' ''user'' ''hi'' 0, turn_row ''+15550100'' ''assistant'' ''Hello!'' 1]"
    by (auto simp: db0_def empty_tables_def)
  moreover from save_turn_atomic [OF b] save_turn_db_failing
  have "conversations (committed (snd ?bad)) = []"
    by (auto simp: db0_def db_failing_def empty_tables_def)
  ultimately show ?thesis using save_turn_db0 save_turn_db_failing by simp
qed

section \<open>The tool executor\<close>

lemma known_names:
  "name \<in> set (map fst TOOLS) \<longleftrightarrow>
     name = ''get_customer_info'' \<or> name = ''search_knowledge_base'' \<or> name = ''create_support_ticket''
     \<or> name = ''get_customer_tickets'' \<or> name = ''update_account_status''"
  by (auto simp: TOOLS_def)

lemma execute_tool_decode_error:
  "json_loads e arguments = Inl err \<Longrightarrow> execute_tool e name arguments d = (Inl err, d)"
  by (simp add: execute_tool_def)

lemma execute_tool_unknown:
  "json_loads e arguments = Inr args \<Longrightarrow> name \<notin> set (map fst TOOLS) \<Longrightarrow>
     execute_tool e name arguments d = (Inr (unknown_tool_text name), d)"
  by (simp add: execute_tool_def unknown_tool_text_def TOOLS_def)

lemma execute_tool_missing_key:
  assumes "json_loads e arguments = Inr (JObject kvs)" "name \<in> set (map fst TOOLS)"
    "\<exists>k \<in> set (required_keys name). map_of kvs k = None"
  shows "\<exists>k \<in> set (required_keys name). execute_tool e name arguments d = (Inl (KeyError k), d)"
  using assms(2) unfolding known_names
proof (elim disjE)
  assume n: "name = ''get_customer_info''"
  with assms show ?thesis by (auto simp: execute_tool_def required_keys_def TOOLS_def)
next
  assume n: "name = ''search_knowledge_base''"
  with assms show ?thesis by (auto simp: execute_tool_def required_keys_def TOOLS_def)
next
  assume n: "name = ''create_support_ticket''"
  with assms show ?thesis
    by (auto simp: execute_tool_def required_keys_def TOOLS_def split: option.splits)
next
  assume n: "name = ''get_customer_tickets''"
  with assms show ?thesis by (auto simp: execute_tool_def required_keys_def TOOLS_def)
next
  assume n: "name = ''update_account_status''"
  with assms show ?thesis
    by (auto simp: execute_tool_def required_keys_def TOOLS_def split: option.splits)
qed

lemma getitem_not_object: "\<forall>kvs. args \<noteq> JObject kvs \<Longrightarrow> getitem args k = Inl TypeError"
  by (cases args) simp_all

lemma execute_tool_not_object:
  assumes "json_loads e arguments = Inr args" "\<forall>kvs. args \<noteq> JObject kvs"
    "name \<in> set (map fst TOOLS)"
  shows "execute_tool e name arguments d = (Inl TypeError, d)"
  using assms(3) unfolding known_names
  by (elim disjE) (simp_all add: execute_tool_def assms(1) getitem_not_object [OF assms(2)])

lemma get_customer_returns:
  "faults d = [] \<Longrightarrow> \<exists>r d'. get_customer e (JString s) d = (Inr r, d')"
  by (simp add: get_customer_def with_conn_def cur_execute_def conn_commit_def next_fault_def
      select_customer_def)

lemma get_tickets_returns:
  "faults d = [] \<Longrightarrow> \<exists>r d'. get_tickets e (JString s) d = (Inr r, d')"
  by (simp add: get_tickets_def with_conn_def cur_execute_def conn_commit_def next_fault_def
      select_tickets_def)

lemma create_ticket_returns:
  "faults d = [] \<Longrightarrow>
     \<exists>r d'. create_ticket e (JString p) (JString i) (JString pr) d = (Inr r, d')"
  by (simp add: create_ticket_def with_conn_def cur_execute_def conn_commit_def next_fault_def
      insert_ticket_def)

lemma update_customer_status_returns:
  "faults d = [] \<Longrightarrow> \<exists>r d'. update_customer_status e (JString p) (JString st) d = (Inr r, d')"
  by (simp add: update_customer_status_def with_conn_def cur_execute_def conn_commit_def
      next_fault_def update_status_def Let_def)

lemma execute_tool_returns_text:
  assumes l: "json_loads e arguments = Inr (JObject kvs)" and n: "name \<in> set (map fst TOOLS)"
    and k: "\<forall>k \<in> set (required_keys name). \<exists>s. map_of kvs k = Some (JString s)"
    and f: "faults d = []"
    and q: "\<forall>query. map_of kvs ''query'' = Some query \<longrightarrow> (\<exists>docs. kb_query e query 3 = Inr docs)"
  shows "\<exists>out d'. execute_tool e name arguments d = (Inr out, d')"
  using n unfolding known_names
proof (elim disjE)
  assume n: "name = ''get_customer_info''"
  from k n obtain s where s: "map_of kvs ''phone'' = Some (JString s)"
    by (auto simp: required_keys_def TOOLS_def)
  from get_customer_returns [OF f, of e s] obtain r d' where "get_customer e (JString s) d = (Inr r, d')"
    by blast
  with l n s show ?thesis
    by (cases r) (auto simp: execute_tool_def)
next
  assume n: "name = ''search_knowledge_base''"
  from k n obtain s where s: "map_of kvs ''query'' = Some (JString s)"
    by (auto simp: required_keys_def TOOLS_def)
  with q obtain docs where "kb_query e (JString s) 3 = Inr docs" by blast
  with l n s show ?thesis
    by (auto simp: execute_tool_def search_def)
next
  assume n: "name = ''create_support_ticket''"
  from k n obtain p i pr where s: "map_of kvs ''phone'' = Some (JString p)"
    "map_of kvs ''issue'' = Some (JString i)" "map_of kvs ''priority'' = Some (JString pr)"
    by (auto simp: required_keys_def TOOLS_def)
  from create_ticket_returns [OF f, of e p i pr] obtain r d' where
    "create_ticket e (JString p) (JString i) (JString pr) d = (Inr r, d')" by blast
  with l n s show ?thesis
    by (auto simp: execute_tool_def)
next
  assume n: "name = ''get_customer_tickets''"
  from k n obtain s where s: "map_of kvs ''phone'' = Some (JString s)"
    by (auto simp: required_keys_def TOOLS_def)
  from get_tickets_returns [OF f, of e s] obtain r d' where "get_tickets e (JString s) d = (Inr r, d')"
    by blast
  with l n s show ?thesis
    by (auto simp: execute_tool_def)
next
  assume n: "name = ''update_account_status''"
  from k n obtain p st where s: "map_of kvs ''phone'' = Some (JString p)"
    "map_of kvs ''status'' = Some (JString st)"
    by (auto simp: required_keys_def TOOLS_def)
  from update_customer_status_returns [OF f, of e p st] obtain r d' where
    "update_customer_status e (JString p) (JString st) d = (Inr r, d')" by blast
  with l n s show ?thesis
    by (cases r) (auto simp: execute_tool_def)
qed

text \<open>
  C2, as amended. \<^verbatim>\<open>execute_tool\<close> handles no exception. When the argument string does not
  decode, it raises the decoder's error, whatever the name, also an unknown one. When the
  arguments decode and the name is not one of \<^verbatim>\<open>TOOLS\<close>, it returns the text
  \<open>Unknown tool '<name>'. No action taken.\<close> and touches nothing. When the arguments decode
  to an object that lacks a key the named tool requires, it raises \<^verbatim>\<open>KeyError\<close> for such a
  key before any collaborator is called; when they decode to a value that is not an object,
  a known tool raises \<^verbatim>\<open>TypeError\<close>. When the object holds a string for every key the
  named tool requires, no database operation fails and the search index answers, it
  returns a text.
\<close>

theorem execute_tool_raises_or_returns:
  "(json_loads e arguments = Inl err \<longrightarrow> execute_tool e name arguments d = (Inl err, d))
   \<and> (json_loads e arguments = Inr args \<and> name \<notin> set (map fst TOOLS) \<longrightarrow>
        execute_tool e name arguments d = (Inr (unknown_tool_text name), d))
   \<and> (json_loads e arguments = Inr (JObject kvs) \<and> name \<in> set (map fst TOOLS)
        \<and> (\<exists>k \<in> set (required_keys name). map_of kvs k = None) \<longrightarrow>
        (\<exists>k \<in> set (required_keys name). execute_tool e name arguments d = (Inl (KeyError k), d)))
   \<and> (json_loads e arguments = Inr (JObject kvs) \<and> name \<in> set (map fst TOOLS)
        \<and> (\<forall>k \<in> set (required_keys name). \<exists>s. map_of kvs k = Some (JString s))
        \<and> faults d = []
        \<and> (\<forall>query. map_of kvs ''query'' = Some query \<longrightarrow> (\<exists>docs. kb_query e query 3 = Inr docs)) \<longrightarrow>
        (\<exists>out d'. execute_tool e name arguments d = (Inr out, d')))
   \<and> (json_loads e arguments = Inr args \<and> (\<forall>kvs. args \<noteq> JObject kvs)
        \<and> name \<in> set (map fst TOOLS) \<longrightarrow>
        execute_tool e name arguments d = (Inl TypeError, d))"
  using execute_tool_decode_error execute_tool_unknown execute_tool_missing_key
    execute_tool_returns_text execute_tool_not_object
  by (intro conjI impI) (blast | simp)+

theorem execute_tool_raises_or_returns_witness:
  \<open>execute_tool (stub_env silent_model) ''update_account_status'' ''{broken'' db0
     = (Inl JSONDecodeError, db0)
   \<and> execute_tool (stub_env silent_model) ''reboot_router'' ''{}'' db0
     = (Inr (unknown_tool_text ''reboot_router''), db0)
   \<and> execute_tool (stub_env silent_model) ''get_customer_tickets'' ''{}'' db0
     = (Inl (KeyError ''phone''), db0)
   \<and> (\<exists>out d'. execute_tool (stub_env silent_model) ''search_knowledge_base''
                   ''{"query": "password reset"}'' db0 = (Inr out, d'))
   \<and> execute_tool (stub_env silent_model) ''create_support_ticket'' ''[]'' db0
     = (Inl TypeError, db0)\<close>
proof -
  let ?e = "stub_env silent_model"
  have l1: "json_loads ?e ''{broken'' = Inl JSONDecodeError"
    and l2: "json_loads ?e ''{}'' = Inr (JObject [])"
    and l3: \<open>json_loads ?e ''{"query": "password reset"}''
              = Inr (JObject [(''query'', JString ''password reset'')])\<close>
    by (simp_all add: stub_env_def stub_json_loads_def)
  have n2: "''reboot_router'' \<notin> set (map fst TOOLS)"
    and n3: "''get_customer_tickets'' \<in> set (map fst TOOLS)"
    and n4: "''search_knowledge_base'' \<in> set (map fst TOOLS)"
    by (simp_all add: TOOLS_def)
  have r3: "required_keys ''get_customer_tickets'' = [''phone'']"
    and r4: "required_keys ''search_knowledge_base'' = [''query'']"
    by (simp_all add: required_keys_def TOOLS_def)
  have k: "\<exists>docs. kb_query ?e q 3 = Inr docs" for q
    by (simp add: stub_env_def)
  have f: "faults db0 = []" by (simp add: db0_def)
  have c1: "execute_tool ?e ''update_account_status'' ''{broken'' db0 = (Inl JSONDecodeError, db0)"
    using execute_tool_raises_or_returns
      [of ?e "''{broken''" JSONDecodeError "''update_account_status''" db0] l1
    by simp
  have c2: "execute_tool ?e ''reboot_router'' ''{}'' db0
     = (Inr (unknown_tool_text ''reboot_router''), db0)"
    using execute_tool_raises_or_returns
      [where e = ?e and arguments = "''{}''" and name = "''reboot_router''" and d = db0
         and args = "JObject []"] l2 n2
    by simp
  have c3: "execute_tool ?e ''get_customer_tickets'' ''{}'' db0 = (Inl (KeyError ''phone''), db0)"
    using execute_tool_raises_or_returns
      [where e = ?e and arguments = "''{}''" and name = "''get_customer_tickets''" and d = db0
         and kvs = "[]"] l2 n3 r3
    by simp
  have c4: \<open>\<exists>out d'. execute_tool ?e ''search_knowledge_base''
                   ''{"query": "password reset"}'' db0 = (Inr out, d')\<close>
    using execute_tool_raises_or_returns
      [where e = ?e and arguments = \<open>''{"query": "password reset"}''\<close>
         and name = "''search_knowledge_base''" and d = db0
         and kvs = "[(''query'', JString ''password reset'')]"] l3 n4 r4 k f
    by simp
  have l5: "json_loads ?e ''[]'' = Inr (JArray [])"
    by (simp add: stub_env_def stub_json_loads_def)
  have n5: "''create_support_ticket'' \<in> set (map fst TOOLS)"
    by (simp add: TOOLS_def)
  have c5: "execute_tool ?e ''create_support_ticket'' ''[]'' db0 = (Inl TypeError, db0)"
    using execute_tool_raises_or_returns
      [where e = ?e and arguments = "''[]''" and name = "''create_support_ticket''" and d = db0
         and args = "JArray []"] l5 n5
    by simp
  from c1 c2 c3 c4 c5 show ?thesis by blast
qed

text \<open>
  The claim as stated fails: arguments that are not JSON make \<^verbatim>\<open>execute_tool\<close> raise
  \<^verbatim>\<open>JSONDecodeError\<close>, for a known and for an unknown name, and an empty object makes
  \<^verbatim>\<open>get_customer_info\<close> raise \<^verbatim>\<open>KeyError\<close>; no text is returned.
\<close>

theorem execute_tool_raises:
  \<open>execute_tool (stub_env silent_model) ''get_customer_info'' ''not json'' db0
     = (Inl JSONDecodeError, db0)
   \<and> execute_tool (stub_env silent_model) ''no_such_tool'' ''not json'' db0
     = (Inl JSONDecodeError, db0)
   \<and> execute_tool (stub_env silent_model) ''get_customer_info'' ''{}'' db0
     = (Inl (KeyError ''phone''), db0)\<close>
  by (simp add: execute_tool_def stub_env_def stub_json_loads_def)

end
